theory Spec2Isabelle
  imports Complex_Main "HOL-Library.Word"
begin

section \<open>Errors (utils/errors)\<close>

text \<open>
  The error classes of the host all derive from \<^verbatim>\<open>Error\<close>; a class sets the
  \<^verbatim>\<open>name\<close> field and passes the message on. An error object is modelled by these
  two fields. \<^verbatim>\<open>TypeError\<close> is the error the JavaScript engine raises on a
  property read from \<^verbatim>\<open>null\<close> or \<^verbatim>\<open>undefined\<close>, \<^verbatim>\<open>RangeError\<close> the one
  \<^verbatim>\<open>Buffer.writeUInt32BE\<close> raises, \<^verbatim>\<open>AxiosError\<close> the rejection of an HTTP call.
\<close>

datatype js_error = JsError (name: string) (message: string)

definition VsocketError :: "string \<Rightarrow> js_error" where
  "VsocketError msg = JsError ''VsocketError'' msg"

definition L3Error :: "string \<Rightarrow> js_error" where
  "L3Error msg = JsError ''L3Error'' msg"

definition TypeError :: "string \<Rightarrow> js_error" where
  "TypeError msg = JsError ''TypeError'' msg"

definition RangeError :: "string \<Rightarrow> js_error" where
  "RangeError msg = JsError ''RangeError'' msg"

definition AxiosError :: "string \<Rightarrow> js_error" where
  "AxiosError msg = JsError ''AxiosError'' msg"

section \<open>JavaScript values\<close>

subsection \<open>Numbers\<close>

text \<open>
  A JavaScript number is an IEEE 754 double: a finite value, one of the two infinities, or
  \<^verbatim>\<open>NaN\<close>. A finite double is modelled by the real number it stands for (the two zeros
  are not told apart). Arithmetic rounds: \<open>to_double x\<close> is the double nearest to the real
  \<open>x\<close>, a tie going to the double whose significand is even, and an infinity when the
  rounded magnitude reaches \<open>2 ^ 1024\<close>. The doubles around \<open>x\<close> are \<open>ulp x\<close> apart:
  \<open>2 ^ (e - 52)\<close> for \<open>2 ^ e \<le> \<bar>x\<bar> < 2 ^ (e + 1)\<close>, and \<open>2 ^ - 1074\<close> below
  \<open>2 ^ - 1022\<close>. \<open>js_plus\<close> and \<open>js_times\<close> are \<^verbatim>\<open>+\<close> and \<^verbatim>\<open>*\<close> on numbers,
  \<open>js_le\<close> and \<open>js_less\<close> are \<^verbatim>\<open><=\<close> and \<^verbatim>\<open><\<close>; a comparison with \<^verbatim>\<open>NaN\<close> is false.
\<close>

datatype js_number = Finite real | PosInfinity | NegInfinity | NaN

definition round_half_even :: "real \<Rightarrow> int" where
  "round_half_even z =
     (if z - of_int \<lfloor>z\<rfloor> < 1 / 2 then \<lfloor>z\<rfloor>
      else if 1 / 2 < z - of_int \<lfloor>z\<rfloor> then \<lfloor>z\<rfloor> + 1
      else if even \<lfloor>z\<rfloor> then \<lfloor>z\<rfloor> else \<lfloor>z\<rfloor> + 1)"

definition ulp :: "real \<Rightarrow> real" where
  "ulp x = 2 powi (max \<lfloor>log 2 \<bar>x\<bar>\<rfloor> (- 1022) - 52)"

definition to_double :: "real \<Rightarrow> js_number" where
  "to_double x =
     (if x = 0 then Finite 0
      else (let y = of_int (round_half_even (x / ulp x)) * ulp x
            in if 2 ^ 1024 \<le> y then PosInfinity
               else if y \<le> - (2 ^ 1024) then NegInfinity
               else Finite y))"

fun js_sign :: "js_number \<Rightarrow> int" where
  "js_sign (Finite x) = (if 0 < x then 1 else if x < 0 then - 1 else 0)"
| "js_sign PosInfinity = 1"
| "js_sign NegInfinity = - 1"
| "js_sign NaN = 0"

fun js_times :: "js_number \<Rightarrow> js_number \<Rightarrow> js_number" where
  "js_times (Finite x) (Finite y) = to_double (x * y)"
| "js_times NaN b = NaN"
| "js_times a NaN = NaN"
| "js_times a b =
     (if js_sign a * js_sign b = 0 then NaN
      else if 0 < js_sign a * js_sign b then PosInfinity else NegInfinity)"

fun js_plus :: "js_number \<Rightarrow> js_number \<Rightarrow> js_number" where
  "js_plus (Finite x) (Finite y) = to_double (x + y)"
| "js_plus NaN b = NaN"
| "js_plus a NaN = NaN"
| "js_plus PosInfinity NegInfinity = NaN"
| "js_plus NegInfinity PosInfinity = NaN"
| "js_plus PosInfinity b = PosInfinity"
| "js_plus a PosInfinity = PosInfinity"
| "js_plus NegInfinity b = NegInfinity"
| "js_plus a NegInfinity = NegInfinity"

fun js_le :: "js_number \<Rightarrow> js_number \<Rightarrow> bool" where
  "js_le (Finite x) (Finite y) = (x \<le> y)"
| "js_le NaN b = False"
| "js_le a NaN = False"
| "js_le NegInfinity b = True"
| "js_le a PosInfinity = True"
| "js_le a b = False"

fun js_less :: "js_number \<Rightarrow> js_number \<Rightarrow> bool" where
  "js_less (Finite x) (Finite y) = (x < y)"
| "js_less NaN b = False"
| "js_less a NaN = False"
| "js_less PosInfinity b = False"
| "js_less a NegInfinity = False"
| "js_less a b = True"

subsection \<open>Values\<close>

text \<open>
  An untyped JavaScript value (\<^verbatim>\<open>any\<close>). Reading a property of \<^verbatim>\<open>undefined\<close> or
  \<^verbatim>\<open>null\<close> throws a \<^verbatim>\<open>TypeError\<close> whose message names the property between single
  quotes; on an object it gives the field or \<^verbatim>\<open>undefined\<close>; on the other values the
  names read by the host (none of them is \<^verbatim>\<open>length\<close> or an index) are not defined and
  give \<^verbatim>\<open>undefined\<close>.
\<close>

datatype js_value =
    JUndefined
  | JNull
  | JBool bool
  | JNumber js_number
  | JString string
  | JArray "js_value list"
  | JObject "(string \<times> js_value) list"

definition quoted :: "string \<Rightarrow> string" where
  "quoted k = CHR 0x27 # k @ [CHR 0x27]"

definition get_prop :: "js_value \<Rightarrow> string \<Rightarrow> js_error + js_value" where
  "get_prop v k =
     (case v of
        JUndefined \<Rightarrow>
          Inl (TypeError (''Cannot read properties of undefined (reading '' @ quoted k @ '')''))
      | JNull \<Rightarrow>
          Inl (TypeError (''Cannot read properties of null (reading '' @ quoted k @ '')''))
      | JObject props \<Rightarrow> (case map_of props k of None \<Rightarrow> Inr JUndefined | Some x \<Rightarrow> Inr x)
      | _ \<Rightarrow> Inr JUndefined)"

text \<open>
  A \<^verbatim>\<open>throw\<close> and a rejected promise carry any value: an error object, or another value
  such as \<^verbatim>\<open>undefined\<close>. \<open>message_of\<close> is the read of \<^verbatim>\<open>.message\<close> on a caught value.
\<close>

datatype thrown = ThrownError js_error | ThrownValue js_value

definition message_of :: "thrown \<Rightarrow> js_error + js_value" where
  "message_of t =
     (case t of
        ThrownError error \<Rightarrow> Inr (JString (message error))
      | ThrownValue v \<Rightarrow> get_prop v ''message'')"


section \<open>Retry with exponential backoff (utils/retry)\<close>

text \<open>
  \<^verbatim>\<open>retryWithBackoff(operation, options)\<close>. The operation is a closure with effects:
  it is a function of the state \<open>'s\<close> of the world it acts on, returning the value it
  resolves with (\<open>Inr\<close>) or the value it rejects with (\<open>Inl\<close>) and the new state. What
  the wrapper catches is cast to \<^verbatim>\<open>Error\<close> unchecked, so it is any thrown value.
  \<^verbatim>\<open>maxAttempts\<close>, \<^verbatim>\<open>delayMs\<close> and \<^verbatim>\<open>backoffMultiplier\<close> are JavaScript numbers
  (the schema of the configuration accepts any number for them), and so is the loop counter
  \<^verbatim>\<open>attempt\<close>. The optional observer \<^verbatim>\<open>onRetry\<close> may act on the world and may throw:
  it returns the value it throws, if any, and the new state. Logging is not modelled but
  for the read of \<^verbatim>\<open>lastError.message\<close> among the arguments of \<^verbatim>\<open>logger.debug\<close>,
  which throws a \<^verbatim>\<open>TypeError\<close> when the operation has rejected with \<^verbatim>\<open>undefined\<close> or
  \<^verbatim>\<open>null\<close>. An error thrown inside the \<^verbatim>\<open>catch\<close> block leaves the wrapper at once.
  The operation always settles; a promise that stays pending is not a value of its type.

  What the wrapper does to the outside is recorded as a list of events: each call of the
  operation with the value of \<^verbatim>\<open>attempt\<close> and its outcome, and each \<^verbatim>\<open>sleep(delay)\<close>
  with the delay handed to it (what the timer makes of a delay is not modelled). The loop
  need not end: the result \<open>None\<close> is a call that never returns. \<^verbatim>\<open>lastError\<close> is
  \<^verbatim>\<open>undefined\<close> until an attempt has failed.
\<close>

record 's RetryOptions =
  maxAttempts :: js_number
  delayMs :: js_number
  backoffMultiplier :: js_number
  onRetry :: "(js_number \<Rightarrow> thrown \<Rightarrow> 's \<Rightarrow> thrown option \<times> 's) option"

datatype 'a retry_event = Invoke js_number "thrown + 'a" | Sleep js_number

type_synonym ('a, 's) retry_result = "(thrown + 'a) \<times> 's \<times> 'a retry_event list"

fun emit :: "'a retry_event list \<Rightarrow> ('a, 's) retry_result \<Rightarrow> ('a, 's) retry_result" where
  "emit evs (r, s, tr) = (r, s, evs @ tr)"

definition notify :: "'s RetryOptions \<Rightarrow> js_number \<Rightarrow> thrown \<Rightarrow> 's \<Rightarrow> thrown option \<times> 's" where
  "notify options attempt error s =
     (case onRetry options of None \<Rightarrow> (None, s) | Some f \<Rightarrow> f attempt error s)"

partial_function (option) retry_loop ::
  "('s \<Rightarrow> (thrown + 'a) \<times> 's) \<Rightarrow> 's RetryOptions \<Rightarrow> js_number \<Rightarrow> js_number \<Rightarrow> thrown \<Rightarrow> 's
     \<Rightarrow> ('a, 's) retry_result option" where
  "retry_loop operation options attempt delay lastError s =
     (if js_le attempt (maxAttempts options) then
        (case operation s of
           (Inr v, s1) \<Rightarrow> Some (Inr v, s1, [Invoke attempt (Inr v)])
         | (Inl error, s1) \<Rightarrow>
             (if js_less attempt (maxAttempts options) then
                (case message_of error of
                   Inl type_error \<Rightarrow>
                     Some (Inl (ThrownError type_error), s1, [Invoke attempt (Inl error)])
                 | Inr msg \<Rightarrow>
                     (case notify options attempt error s1 of
                        (Some thrown, s2) \<Rightarrow> Some (Inl thrown, s2, [Invoke attempt (Inl error)])
                      | (None, s2) \<Rightarrow>
                          Option.bind
                            (retry_loop operation options (js_plus attempt (Finite 1))
                               (js_times delay (backoffMultiplier options)) error s2)
                            (\<lambda>rest. Some (emit [Invoke attempt (Inl error), Sleep delay] rest))))
              else
                Option.bind
                  (retry_loop operation options (js_plus attempt (Finite 1)) delay error s1)
                  (\<lambda>rest. Some (emit [Invoke attempt (Inl error)] rest))))
      else Some (Inl lastError, s, []))"

definition retryWithBackoff ::
  "('s \<Rightarrow> (thrown + 'a) \<times> 's) \<Rightarrow> 's RetryOptions \<Rightarrow> 's \<Rightarrow> ('a, 's) retry_result option" where
  "retryWithBackoff operation options s =
     retry_loop operation options (Finite 1) (delayMs options) (ThrownValue JUndefined) s"

text \<open>The calls of the operation in a trace, in order, each with its attempt number and outcome.\<close>

fun invocations :: "'a retry_event list \<Rightarrow> (js_number \<times> (thrown + 'a)) list" where
  "invocations [] = []"
| "invocations (Invoke k out # tr) = (k, out) # invocations tr"
| "invocations (Sleep d # tr) = invocations tr"






text \<open>
  Operations of the unit tests: one that always rejects, one that rejects twice and then
  resolves; the state counts the calls. Further an operation that rejects with
  \<^verbatim>\<open>undefined\<close> (\<^verbatim>\<open>Promise.reject()\<close>), an observer that throws, and options whose
  initial delay is the double written \<^verbatim>\<open>0.1\<close>, which is \<open>3602879701896397 / 2 ^ 55\<close>.
\<close>

definition persistent_failure :: "nat \<Rightarrow> (thrown + nat) \<times> nat" where
  "persistent_failure n = (Inl (ThrownError (JsError ''Error'' ''Persistent failure'')), Suc n)"

definition third_time_lucky :: "nat \<Rightarrow> (thrown + nat) \<times> nat" where
  "third_time_lucky n =
     (if n < 2 then Inl (ThrownError (JsError ''Error'' ''Fail'')) else Inr n, Suc n)"

definition three_attempts :: "nat RetryOptions" where
  "three_attempts = \<lparr>maxAttempts = Finite 3, delayMs = Finite 100, backoffMultiplier = Finite 2, onRetry = None\<rparr>"

definition one_attempt :: "nat RetryOptions" where
  "one_attempt = \<lparr>maxAttempts = Finite 1, delayMs = Finite 100, backoffMultiplier = Finite 2, onRetry = None\<rparr>"

definition rejects_undefined :: "nat \<Rightarrow> (thrown + nat) \<times> nat" where
  "rejects_undefined n = (Inl (ThrownValue JUndefined), Suc n)"

definition throwing_observer :: "js_number \<Rightarrow> thrown \<Rightarrow> nat \<Rightarrow> thrown option \<times> nat" where
  "throwing_observer attempt error s = (Some (ThrownError (JsError ''Error'' ''observer failed'')), s)"



section \<open>Guardian client (l3/client)\<close>

subsection \<open>Values and HTTP\<close>

text \<open>
  Buffers are lists of bytes. The body of an HTTP response is an untyped JavaScript value
  (\<^verbatim>\<open>response.data\<close> is \<^verbatim>\<open>any\<close>).
\<close>

type_synonym byte = "8 word"

text \<open>\<^verbatim>\<open>new Date(x)\<close> never throws; the date it builds is kept as the value it was built from.\<close>

datatype js_date = Date js_value

record payload =
  attestation_doc :: string
  certificate_chain :: "string list"
  enclave_public_key :: string
  tapp_id :: string

text \<open>
  An HTTP call as \<^verbatim>\<open>axios\<close> receives it: the URL, the body of a POST, and the timeout of
  the options (the headers of the POST are constant).
\<close>

datatype http_call = Post string payload int | Get string int

record http_response =
  status :: nat
  data :: js_value

text \<open>
  The platform the client runs on. \<^verbatim>\<open>axios\<close> resolves with a response or rejects with
  an error (network failure, timeout, or a status outside 2xx); what an endpoint answers may
  depend on every call made before, so the answer is a function of the log of earlier calls
  and of the call. The log of calls is the state the client acts on. \<open>base64\<close> stands for
  \<^verbatim>\<open>Buffer.toString('base64')\<close>.
\<close>

record platform =
  axios :: "http_call list \<Rightarrow> http_call \<Rightarrow> js_error + http_response"
  base64 :: "byte list \<Rightarrow> string"

subsection \<open>Types of the client\<close>

text \<open>
  Modelled from the spec: the declaration of \<^verbatim>\<open>L3Config\<close> that the client is written
  against, with the field \<^verbatim>\<open>endpoints\<close>, is missing (the declaration at hand has a single
  \<^verbatim>\<open>endpoint\<close>). The guardian endpoint list is an ordered, immutable sequence of base
  URLs, and the per-request timeout is configured by the caller.
\<close>

record L3Config =
  endpoints :: "string list"
  timeoutMs :: int

record AttestationBundle =
  attestationDoc :: "byte list"
  certificateChain :: "byte list list"
  enclavePublicKey :: string
  tappId :: string

record AttestationSubmission =
  attestationId :: js_value
  submissionTime :: js_date
  submission_status :: js_value

record guardians_health =
  reachable :: nat
  total :: nat

subsection \<open>submitAttestation\<close>

definition submit_payload :: "platform \<Rightarrow> AttestationBundle \<Rightarrow> payload" where
  "submit_payload pf bundle =
     \<lparr>attestation_doc = base64 pf (attestationDoc bundle),
      certificate_chain = map (\<lambda>cert. base64 pf cert) (certificateChain bundle),
      enclave_public_key = enclavePublicKey bundle,
      tapp_id = tappId bundle\<rparr>"

definition submit_call :: "L3Config \<Rightarrow> payload \<Rightarrow> string \<Rightarrow> http_call" where
  "submit_call config body endpoint =
     Post (endpoint @ ''/attestation/submit'') body (timeoutMs config)"

text \<open>
  The rest of the \<^verbatim>\<open>try\<close> block once the call has settled: a rejection is thrown at the
  \<^verbatim>\<open>await\<close>; otherwise the three fields are read from \<^verbatim>\<open>response.data\<close> in the
  order of the source, and the first read throws when the body is \<^verbatim>\<open>null\<close> or
  \<^verbatim>\<open>undefined\<close>.
\<close>

definition read_submission :: "js_error + http_response \<Rightarrow> js_error + AttestationSubmission" where
  "read_submission settled =
     (case settled of
        Inl error \<Rightarrow> Inl error
      | Inr response \<Rightarrow>
          (case get_prop (data response) ''attestation_id'' of
             Inl error \<Rightarrow> Inl error
           | Inr attestation_id \<Rightarrow>
               (case get_prop (data response) ''submission_time'' of
                  Inl error \<Rightarrow> Inl error
                | Inr submission_time \<Rightarrow>
                    (case get_prop (data response) ''status'' of
                       Inl error \<Rightarrow> Inl error
                     | Inr st \<Rightarrow>
                         Inr \<lparr>attestationId = attestation_id,
                              submissionTime = Date submission_time,
                              submission_status = st\<rparr>))))"

text \<open>\<^verbatim>\<open>lastError?.message || 'unknown error'\<close>: the empty message is falsy.\<close>

definition last_message :: "js_error option \<Rightarrow> string" where
  "last_message lastError =
     (case lastError of
        None \<Rightarrow> ''unknown error''
      | Some error \<Rightarrow> (if message error = [] then ''unknown error'' else message error))"

fun submit_loop ::
  "platform \<Rightarrow> L3Config \<Rightarrow> payload \<Rightarrow> string list \<Rightarrow> js_error option \<Rightarrow> http_call list
     \<Rightarrow> (js_error + AttestationSubmission) \<times> http_call list" where
  "submit_loop pf config body [] lastError sent =
     (Inl (L3Error (''All guardians unreachable: '' @ last_message lastError)), sent)"
| "submit_loop pf config body (endpoint # rest) lastError sent =
     (case read_submission (axios pf sent (submit_call config body endpoint)) of
        Inr submission \<Rightarrow> (Inr submission, sent @ [submit_call config body endpoint])
      | Inl error \<Rightarrow>
          submit_loop pf config body rest (Some error) (sent @ [submit_call config body endpoint]))"

definition submitAttestation ::
  "platform \<Rightarrow> L3Config \<Rightarrow> AttestationBundle \<Rightarrow> http_call list
     \<Rightarrow> (js_error + AttestationSubmission) \<times> http_call list" where
  "submitAttestation pf config bundle sent =
     submit_loop pf config (submit_payload pf bundle) (endpoints config) None sent"

subsection \<open>checkGuardiansHealth\<close>

text \<open>
  \<^verbatim>\<open>endpoints.map(async (endpoint) => ...)\<close> starts one probe per endpoint, in list
  order, before any of them is awaited. \<open>answers\<close> gives what each call of a list settles
  with when the calls are issued in this order. A probe catches every rejection and resolves
  with a boolean; \<^verbatim>\<open>Promise.all\<close> rejects as soon as one of its promises does.
\<close>

fun answers ::
  "(http_call list \<Rightarrow> http_call \<Rightarrow> js_error + http_response) \<Rightarrow> http_call list \<Rightarrow> http_call list
     \<Rightarrow> (js_error + http_response) list" where
  "answers ax sent [] = []"
| "answers ax sent (call # calls) = ax sent call # answers ax (sent @ [call]) calls"

definition health_call :: "string \<Rightarrow> http_call" where
  "health_call endpoint = Get (endpoint @ ''/health'') 5000"

definition probe :: "js_error + http_response \<Rightarrow> js_error + bool" where
  "probe settled = (case settled of Inr response \<Rightarrow> Inr True | Inl error \<Rightarrow> Inr False)"

fun promise_all :: "(js_error + 'a) list \<Rightarrow> js_error + 'a list" where
  "promise_all [] = Inr []"
| "promise_all (Inl error # ps) = Inl error"
| "promise_all (Inr x # ps) = (case promise_all ps of Inl error \<Rightarrow> Inl error | Inr xs \<Rightarrow> Inr (x # xs))"

definition checkGuardiansHealth ::
  "platform \<Rightarrow> L3Config \<Rightarrow> http_call list \<Rightarrow> (js_error + guardians_health) \<times> http_call list" where
  "checkGuardiansHealth pf config sent =
     (let calls = map health_call (endpoints config);
          promises = map probe (answers (axios pf) sent calls)
      in (case promise_all promises of
            Inl error \<Rightarrow> Inl error
          | Inr results \<Rightarrow>
              Inr \<lparr>reachable = length (filter (\<lambda>r. r) results),
                   total = length (endpoints config)\<rparr>,
          sent @ calls))"

subsection \<open>What the endpoints answer\<close>


definition unusable :: "js_error + http_response \<Rightarrow> bool" where
  "unusable answer =
     (case answer of
        Inl error \<Rightarrow> True
      | Inr response \<Rightarrow> data response = JUndefined \<or> data response = JNull)"

definition failure_of :: "js_error + http_response \<Rightarrow> js_error" where
  "failure_of answer =
     (case answer of
        Inl error \<Rightarrow> error
      | Inr response \<Rightarrow>
          JsError ''TypeError''
            (''Cannot read properties of ''
               @ (if data response = JNull then ''null'' else ''undefined'')
               @ '' (reading '' @ [CHR 0x27] @ ''attestation_id'' @ [CHR 0x27] @ '')''))"

subsection \<open>Guardians of the examples\<close>

text \<open>
  A bundle, and three platforms: on the first the guardian \<^verbatim>\<open>g3\<close> accepts a submission
  and every other guardian answers HTTP 500, and the health probe of \<^verbatim>\<open>g2\<close> times out;
  on the second no guardian can be reached; on the third every guardian answers with
  status 200 and a body that is not JSON, which axios hands over as the text it received.
  The encoding of the buffers plays no role in the examples and is a stand-in.
\<close>

definition bundle0 :: AttestationBundle where
  "bundle0 = \<lparr>attestationDoc = [1, 2, 3], certificateChain = [[4], [5, 6]],
              enclavePublicKey = ''mock-public-key'', tappId = ''test-tapp-123''\<rparr>"

definition guardians :: "string list \<Rightarrow> L3Config" where
  "guardians urls = \<lparr>endpoints = urls, timeoutMs = 5000\<rparr>"

definition accepted :: http_response where
  "accepted = \<lparr>status = 200,
               data = JObject [(''attestation_id'', JString ''att-1''),
                               (''submission_time'', JString ''2024-01-01T00:00:00Z''),
                               (''status'', JString ''pending'')]\<rparr>"

definition failover_platform :: platform where
  "failover_platform =
     \<lparr>axios = (\<lambda>sent call.
         case call of
           Post url body timeout \<Rightarrow>
             if url = ''http://g3/attestation/submit'' then Inr accepted
             else Inl (AxiosError ''Request failed with status code 500'')
         | Get url timeout \<Rightarrow>
             if url = ''http://g2/health'' then Inl (AxiosError ''timeout of 5000ms exceeded'')
             else Inr \<lparr>status = 200, data = JObject [(''status'', JString ''ok'')]\<rparr>),
      base64 = (\<lambda>bytes. replicate (length bytes) CHR ''A'')\<rparr>"

definition unreachable_platform :: platform where
  "unreachable_platform =
     \<lparr>axios = (\<lambda>sent call. Inl (AxiosError ''Network Error'')),
      base64 = (\<lambda>bytes. replicate (length bytes) CHR ''A'')\<rparr>"

definition garbage_platform :: platform where
  "garbage_platform =
     \<lparr>axios = (\<lambda>sent call. Inr \<lparr>status = 200, data = JString ''<html>Bad Gateway</html>''\<rparr>),
      base64 = (\<lambda>bytes. replicate (length bytes) CHR ''A'')\<rparr>"


section \<open>Socket clients (vsock/client)\<close>

subsection \<open>Buffers, JSON and the wire format\<close>

text \<open>
  \<^verbatim>\<open>writeUInt32BE\<close> writes a number below \<open>2 ^ 32\<close> as four bytes, most significant
  first, and throws a \<^verbatim>\<open>RangeError\<close> for any other; \<^verbatim>\<open>readUInt32BE(0)\<close> reads
  the first four bytes of a buffer back. The handler reads only buffers of four bytes or
  more, so the unspecified value of \<open>b ! i\<close> beyond the end is never used.
\<close>

definition uint32be :: "nat \<Rightarrow> byte list" where
  "uint32be n = [of_nat (n div 2 ^ 24), of_nat (n div 2 ^ 16), of_nat (n div 2 ^ 8), of_nat n]"

definition writeUInt32BE :: "nat \<Rightarrow> js_error + byte list" where
  "writeUInt32BE n =
     (if n < 2 ^ 32 then Inr (uint32be n)
      else Inl (RangeError ''The value of value is out of range. It must be >= 0 and <= 4294967295.''))"

definition readUInt32BE :: "byte list \<Rightarrow> nat" where
  "readUInt32BE b =
     unat (b ! 0) * 2 ^ 24 + unat (b ! 1) * 2 ^ 16 + unat (b ! 2) * 2 ^ 8 + unat (b ! 3)"

text \<open>
  A request envelope, and the JavaScript object it is. \<^verbatim>\<open>JSON.stringify\<close> followed by
  the UTF-8 encoding, and the UTF-8 decoding followed by \<^verbatim>\<open>JSON.parse\<close>, belong to the
  platform: they are the two functions of a \<open>codec\<close>; either may throw. What is parsed is
  cast to \<^verbatim>\<open>TeeResponse\<close> unchecked, so a response is any value.
\<close>

record TeeRequest =
  req_id :: string
  req_method :: string
  params :: js_value
  timestamp :: js_number

definition request_value :: "TeeRequest \<Rightarrow> js_value" where
  "request_value r =
     JObject [(''id'', JString (req_id r)), (''method'', JString (req_method r)),
              (''params'', params r), (''timestamp'', JNumber (timestamp r))]"

record codec =
  stringify :: "TeeRequest \<Rightarrow> js_error + byte list"
  parse :: "byte list \<Rightarrow> js_error + js_value"

text \<open>
  The buffer \<^verbatim>\<open>writeMessage\<close> builds: the length of the JSON bytes as four bytes, then
  the JSON bytes.
\<close>

definition encode_frame :: "codec \<Rightarrow> TeeRequest \<Rightarrow> js_error + byte list" where
  "encode_frame codec msg =
     (case stringify codec msg of
        Inl error \<Rightarrow> Inl error
      | Inr jsonBuffer \<Rightarrow>
          (case writeUInt32BE (length jsonBuffer) of
             Inl error \<Rightarrow> Inl error
           | Inr lengthBuffer \<Rightarrow> Inr (lengthBuffer @ jsonBuffer)))"

subsection \<open>State of a client\<close>

text \<open>
  A socket handle: \<^verbatim>\<open>end()\<close> and \<^verbatim>\<open>destroy()\<close> mark it and do not throw, also when
  called again. The two clients hold the same two fields \<^verbatim>\<open>socket\<close> and
  \<^verbatim>\<open>connected\<close> and have the same \<^verbatim>\<open>disconnect\<close> and \<^verbatim>\<open>isConnected\<close>, which
  are defined once for both; \<^verbatim>\<open>VsocketClient\<close> adds the accumulation buffer and the
  pending promise of \<^verbatim>\<open>readMessage\<close>. A promise is known by its number.
\<close>

record sock =
  sock_id :: nat
  ended :: bool
  destroyed :: bool

definition sock_end :: "sock \<Rightarrow> sock" where
  "sock_end s = s\<lparr>ended := True\<rparr>"

definition sock_destroy :: "sock \<Rightarrow> sock" where
  "sock_destroy s = s\<lparr>destroyed := True\<rparr>"

record VsockConfig =
  cid :: int
  port :: int
  connectTimeoutMs :: int
  retryAttempts :: js_number
  retryDelayMs :: js_number

record SocketClient =
  socket :: "sock option"
  connected :: bool
  config :: VsockConfig

record VsocketClient = SocketClient +
  dataBuffer :: "byte list"
  pendingResponse :: "nat option"

definition new_VsocketClient :: "VsockConfig \<Rightarrow> VsocketClient" where
  "new_VsocketClient cfg =
     \<lparr>socket = None, connected = False, config = cfg, dataBuffer = [], pendingResponse = None\<rparr>"

definition isConnected :: "'a SocketClient_scheme \<Rightarrow> bool" where
  "isConnected this = connected this"

definition disconnect :: "'a SocketClient_scheme \<Rightarrow> 'a SocketClient_scheme" where
  "disconnect this =
     (case socket this of
        Some s \<Rightarrow> this\<lparr>socket := Some (sock_end s), connected := False\<rparr>
      | None \<Rightarrow> this)"

subsection \<open>Handlers of the socket's events\<close>

text \<open>
  The handlers \<^verbatim>\<open>connect\<close> installs on a new socket, and the timer of a connection
  attempt (\<^verbatim>\<open>if (!this.connected) { this.socket?.destroy(); reject(...) }\<close>), as
  changes of the client's state.
\<close>

definition on_connect :: "'a SocketClient_scheme \<Rightarrow> 'a SocketClient_scheme" where
  "on_connect this = this\<lparr>connected := True\<rparr>"

definition on_error :: "'a SocketClient_scheme \<Rightarrow> 'a SocketClient_scheme" where
  "on_error this = this\<lparr>connected := False\<rparr>"

definition on_close :: "'a SocketClient_scheme \<Rightarrow> 'a SocketClient_scheme" where
  "on_close this = this\<lparr>connected := False\<rparr>"

definition on_timeout :: "'a SocketClient_scheme \<Rightarrow> 'a SocketClient_scheme" where
  "on_timeout this =
     (if \<not> connected this then this\<lparr>socket := map_option sock_destroy (socket this)\<rparr> else this)"

subsection \<open>handleData\<close>

text \<open>
  What \<^verbatim>\<open>handleData\<close> does besides changing the client is recorded as events: each
  call of \<^verbatim>\<open>JSON.parse\<close> with the bytes it is given, and each settlement of a pending
  promise. The \<^verbatim>\<open>while\<close> loop takes one complete frame off the buffer per round.
\<close>

datatype vs_event = Parsed "byte list" | Resolved nat js_value | Rejected nat js_error

fun emit_vs :: "vs_event list \<Rightarrow> VsocketClient \<times> vs_event list \<Rightarrow> VsocketClient \<times> vs_event list" where
  "emit_vs evs (this, tr) = (this, evs @ tr)"

function handle_loop :: "codec \<Rightarrow> VsocketClient \<Rightarrow> VsocketClient \<times> vs_event list" where
  "handle_loop codec this =
     (if 4 \<le> length (dataBuffer this) then
        (let len = readUInt32BE (dataBuffer this) in
         if 4 + len \<le> length (dataBuffer this) then
           (let messageBuffer = take len (drop 4 (dataBuffer this));
                this1 = this\<lparr>dataBuffer := drop (4 + len) (dataBuffer this)\<rparr>
            in case parse codec messageBuffer of
                 Inr response \<Rightarrow>
                   (case pendingResponse this1 of
                      Some p \<Rightarrow>
                        emit_vs [Parsed messageBuffer, Resolved p response]
                          (handle_loop codec (this1\<lparr>pendingResponse := None\<rparr>))
                    | None \<Rightarrow> emit_vs [Parsed messageBuffer] (handle_loop codec this1))
               | Inl error \<Rightarrow>
                   (case pendingResponse this1 of
                      Some p \<Rightarrow>
                        emit_vs [Parsed messageBuffer,
                                 Rejected p (VsocketError (''JSON parse failed: '' @ message error))]
                          (handle_loop codec (this1\<lparr>pendingResponse := None\<rparr>))
                    | None \<Rightarrow> emit_vs [Parsed messageBuffer] (handle_loop codec this1)))
         else (this, []))
      else (this, []))"
  by pat_completeness auto
termination
  by (relation "measure (\<lambda>(codec, this). length (dataBuffer this))") auto

declare handle_loop.simps [simp del]

definition handleData :: "codec \<Rightarrow> VsocketClient \<Rightarrow> byte list \<Rightarrow> VsocketClient \<times> vs_event list" where
  "handleData codec this chunk = handle_loop codec (this\<lparr>dataBuffer := dataBuffer this @ chunk\<rparr>)"

subsection \<open>Frames and streams\<close>

text \<open>
  The frame of a payload; a buffer with no complete frame at its head; what the handler
  does with one complete frame (it parses it, and settles the pending promise if there is
  one); and a stream of chunks delivered to the handler one \<^verbatim>\<open>data\<close> event at a time.
\<close>

definition frame :: "byte list \<Rightarrow> byte list" where
  "frame body = uint32be (length body) @ body"

definition incomplete :: "byte list \<Rightarrow> bool" where
  "incomplete b = (length b < 4 \<or> length b < 4 + readUInt32BE b)"

definition deliver :: "codec \<Rightarrow> nat option \<Rightarrow> byte list \<Rightarrow> vs_event list" where
  "deliver codec pending body =
     Parsed body #
       (case pending of
          None \<Rightarrow> []
        | Some p \<Rightarrow>
            [case parse codec body of
               Inr response \<Rightarrow> Resolved p response
             | Inl error \<Rightarrow> Rejected p (VsocketError (''JSON parse failed: '' @ message error))])"

fun feed :: "codec \<Rightarrow> VsocketClient \<Rightarrow> byte list list \<Rightarrow> VsocketClient \<times> vs_event list" where
  "feed codec this [] = (this, [])"
| "feed codec this (chunk # chunks) =
     (case handleData codec this chunk of (this1, evs) \<Rightarrow> emit_vs evs (feed codec this1 chunks))"

text \<open>The payloads handed to \<^verbatim>\<open>JSON.parse\<close> in a list of events, in order.\<close>

fun parsed :: "vs_event list \<Rightarrow> byte list list" where
  "parsed [] = []"
| "parsed (Parsed b # evs) = b # parsed evs"
| "parsed (Resolved p v # evs) = parsed evs"
| "parsed (Rejected p e # evs) = parsed evs"

subsection \<open>The world of a client\<close>

text \<open>
  What the sockets do is given by a script: for each connection attempt in turn, whether
  the new socket connects, fails with an error, stays silent until the timer of the attempt,
  or cannot be created; for each \<^verbatim>\<open>writeSync\<close> in turn, whether it throws (past the end
  of the script attempts are silent and writes succeed); and the events the sockets deliver
  while a response is awaited. The world also counts the sockets and promises made and
  keeps every buffer written.
\<close>

datatype socket_event = Data "byte list" | Closed | Errored string

datatype attempt_script = Connects | Errors string | Silent | CtorThrows string

record world =
  sockets_made :: nat
  promises_made :: nat
  connecting :: "attempt_script list"
  writing :: "string option list"
  inbound :: "socket_event list"
  wire :: "byte list list"

subsection \<open>connect\<close>

text \<open>
  One connection attempt, up to the first event that settles its promise. When the timer
  finds \<^verbatim>\<open>connected\<close> set it rejects nothing, and a silent socket leaves the promise
  unsettled for ever: this is the outcome \<open>Inr None\<close>, after which the retry wrapper does
  nothing more, as after a resolved attempt. The observer of \<^verbatim>\<open>connect\<close> only logs
  (the message it reads has been read by the wrapper before). \<^verbatim>\<open>connect\<close> returns
  what the wrapper returns, and never returns (\<open>None\<close>) when the wrapper does not.
  The timer of an attempt that has settled still fires later; here it is not followed
  beyond the attempt (the states a client can be in, below, allow for it at any time).
\<close>

definition connect_attempt ::
  "VsocketClient \<times> world \<Rightarrow> (thrown + unit option) \<times> VsocketClient \<times> world" where
  "connect_attempt s =
     (case s of (this, w) \<Rightarrow>
        (let script = (case connecting w of [] \<Rightarrow> Silent | a # rest \<Rightarrow> a);
             w1 = w\<lparr>connecting := tl (connecting w)\<rparr>;
             this1 = this\<lparr>socket :=
                       Some \<lparr>sock_id = sockets_made w, ended = False, destroyed = False\<rparr>\<rparr>;
             w2 = w1\<lparr>sockets_made := Suc (sockets_made w)\<rparr>
         in case script of
              CtorThrows msg \<Rightarrow>
                (Inl (ThrownError (VsocketError (''Failed to create vsock: '' @ msg))), this, w1)
            | Connects \<Rightarrow> (Inr (Some ()), on_connect this1, w2)
            | Errors msg \<Rightarrow>
                (Inl (ThrownError (VsocketError (''Connection failed: '' @ msg))), on_error this1, w2)
            | Silent \<Rightarrow>
                (if \<not> connected this1
                 then (Inl (ThrownError (VsocketError ''Connection timeout'')), on_timeout this1, w2)
                 else (Inr None, this1, w2))))"

definition connect ::
  "VsocketClient \<times> world \<Rightarrow> ((thrown + unit option) \<times> VsocketClient \<times> world) option" where
  "connect s =
     (case retryWithBackoff connect_attempt
             \<lparr>maxAttempts = retryAttempts (config (fst s)),
              delayMs = retryDelayMs (config (fst s)),
              backoffMultiplier = Finite 2,
              onRetry = Some (\<lambda>attempt error s1. (None, s1))\<rparr> s of
        None \<Rightarrow> None
      | Some (r, s1, tr) \<Rightarrow> Some (r, s1))"

subsection \<open>sendRequest\<close>

text \<open>
  \<^verbatim>\<open>readMessage\<close> stores a new promise in \<^verbatim>\<open>pendingResponse\<close>; the call then waits
  until an event settles this promise, and for ever when the events end before: the
  exchange then has no outcome, and the call is \<open>Pending\<close>. The \<^verbatim>\<open>try\<close> block of
  \<^verbatim>\<open>sendRequest\<close> writes, reads and logs two fields of the response; its \<^verbatim>\<open>catch\<close>
  block drops the socket, connects, writes and reads again. A call of \<^verbatim>\<open>sendRequest\<close>
  that never returns because its \<^verbatim>\<open>connect\<close> does not has the result \<open>None\<close>.
\<close>

definition writeMessage ::
  "codec \<Rightarrow> TeeRequest \<Rightarrow> VsocketClient \<times> world \<Rightarrow> (js_error + unit) \<times> world" where
  "writeMessage codec msg s =
     (case s of (this, w) \<Rightarrow>
        (case socket this of
           None \<Rightarrow> (Inl (VsocketError ''Socket not available''), w)
         | Some sck \<Rightarrow>
             (case encode_frame codec msg of
                Inl error \<Rightarrow> (Inl error, w)
              | Inr combined \<Rightarrow>
                  (case writing w of
                     Some reason # rest \<Rightarrow>
                       (Inl (VsocketError (''Write failed: '' @ reason)), w\<lparr>writing := rest\<rparr>)
                   | _ \<Rightarrow> (Inr (), w\<lparr>writing := tl (writing w), wire := wire w @ [combined]\<rparr>)))))"

definition readMessage :: "VsocketClient \<times> world \<Rightarrow> nat \<times> VsocketClient \<times> world" where
  "readMessage s =
     (case s of (this, w) \<Rightarrow>
        (promises_made w, this\<lparr>pendingResponse := Some (promises_made w)\<rparr>,
         w\<lparr>promises_made := Suc (promises_made w)\<rparr>))"

fun settlement :: "nat \<Rightarrow> vs_event list \<Rightarrow> (js_error + js_value) option" where
  "settlement p [] = None"
| "settlement p (Parsed b # evs) = settlement p evs"
| "settlement p (Resolved q v # evs) = (if q = p then Some (Inr v) else settlement p evs)"
| "settlement p (Rejected q e # evs) = (if q = p then Some (Inl e) else settlement p evs)"

definition on_event :: "codec \<Rightarrow> VsocketClient \<Rightarrow> socket_event \<Rightarrow> VsocketClient \<times> vs_event list" where
  "on_event codec this ev =
     (case ev of
        Data chunk \<Rightarrow> handleData codec this chunk
      | Closed \<Rightarrow> (on_close this, [])
      | Errored msg \<Rightarrow> (on_error this, []))"

fun await_events ::
  "codec \<Rightarrow> nat \<Rightarrow> VsocketClient \<Rightarrow> socket_event list
     \<Rightarrow> (js_error + js_value) option \<times> VsocketClient \<times> socket_event list" where
  "await_events codec p this [] = (None, this, [])"
| "await_events codec p this (ev # rest) =
     (case on_event codec this ev of
        (this1, evs) \<Rightarrow>
          (case settlement p evs of
             Some r \<Rightarrow> (Some r, this1, rest)
           | None \<Rightarrow> await_events codec p this1 rest))"

definition await_response ::
  "codec \<Rightarrow> nat \<Rightarrow> VsocketClient \<times> world \<Rightarrow> (js_error + js_value) option \<times> VsocketClient \<times> world" where
  "await_response codec p s =
     (case s of (this, w) \<Rightarrow>
        (case await_events codec p this (inbound w) of
           (r, this1, rest) \<Rightarrow> (r, this1, w\<lparr>inbound := rest\<rparr>)))"

definition exchange ::
  "codec \<Rightarrow> TeeRequest \<Rightarrow> VsocketClient \<times> world
     \<Rightarrow> (js_error + js_value) option \<times> VsocketClient \<times> world" where
  "exchange codec req s =
     (case writeMessage codec req s of
        (Inl error, w1) \<Rightarrow> (Some (Inl error), fst s, w1)
      | (Inr u, w1) \<Rightarrow>
          (case readMessage (fst s, w1) of (p, s2) \<Rightarrow> await_response codec p s2))"

definition log_response :: "js_value \<Rightarrow> js_error + js_value" where
  "log_response response =
     (case get_prop response ''id'' of
        Inl error \<Rightarrow> Inl error
      | Inr i \<Rightarrow>
          (case get_prop response ''success'' of
             Inl error \<Rightarrow> Inl error
           | Inr ok \<Rightarrow> Inr response))"

definition try_block ::
  "codec \<Rightarrow> TeeRequest \<Rightarrow> VsocketClient \<times> world
     \<Rightarrow> (js_error + js_value) option \<times> VsocketClient \<times> world" where
  "try_block codec req s =
     (case exchange codec req s of
        (Some (Inr response), s1) \<Rightarrow> (Some (log_response response), s1)
      | (r, s1) \<Rightarrow> (r, s1))"

datatype 'a completion = Returns 'a | Throws thrown | Pending

definition catch_block ::
  "codec \<Rightarrow> TeeRequest \<Rightarrow> VsocketClient \<times> world
     \<Rightarrow> (js_value completion \<times> VsocketClient \<times> world) option" where
  "catch_block codec req s =
     (case s of (this, w) \<Rightarrow>
        (let this1 = this\<lparr>connected := False\<rparr>;
             this2 = this1\<lparr>socket := None\<rparr>
         in case connect (this2, w) of
              None \<Rightarrow> None
            | Some (Inl thrown, s3) \<Rightarrow> Some (Throws thrown, s3)
            | Some (Inr None, s3) \<Rightarrow> Some (Pending, s3)
            | Some (Inr (Some u), s3) \<Rightarrow>
                (case exchange codec req s3 of
                   (None, s4) \<Rightarrow> Some (Pending, s4)
                 | (Some (Inl error), s4) \<Rightarrow> Some (Throws (ThrownError error), s4)
                 | (Some (Inr response), s4) \<Rightarrow> Some (Returns response, s4))))"

definition sendRequest ::
  "codec \<Rightarrow> TeeRequest \<Rightarrow> VsocketClient \<times> world
     \<Rightarrow> (js_value completion \<times> VsocketClient \<times> world) option" where
  "sendRequest codec req s =
     (case (if \<not> connected (fst s) \<or> socket (fst s) = None then connect s
            else Some (Inr (Some ()), s)) of
        None \<Rightarrow> None
      | Some (Inl thrown, s1) \<Rightarrow> Some (Throws thrown, s1)
      | Some (Inr None, s1) \<Rightarrow> Some (Pending, s1)
      | Some (Inr (Some u), s1) \<Rightarrow>
          (case try_block codec req s1 of
             (None, s2) \<Rightarrow> Some (Pending, s2)
           | (Some (Inr response), s2) \<Rightarrow> Some (Returns response, s2)
           | (Some (Inl error), s2) \<Rightarrow> catch_block codec req s2))"

subsection \<open>States a client can be in\<close>

text \<open>
  A client is constructed with no socket and not connected. A connection attempt stores a
  new socket; the events of a socket run the handlers, and the \<^verbatim>\<open>connect\<close> event
  comes from a socket the client holds (\<^verbatim>\<open>this.socket\<close> is cleared only after that
  socket was destroyed); \<^verbatim>\<open>disconnect\<close> and the \<^verbatim>\<open>catch\<close> block of
  \<^verbatim>\<open>sendRequest\<close> change both fields; everything else leaves the two fields alone.
\<close>

inductive attainable :: "'a SocketClient_scheme \<Rightarrow> bool" where
  constructed: "socket this = None \<Longrightarrow> \<not> connected this \<Longrightarrow> attainable this"
| socket_created: "attainable this \<Longrightarrow> attainable (this\<lparr>socket := Some s\<rparr>)"
| connect_event: "attainable this \<Longrightarrow> socket this \<noteq> None \<Longrightarrow> attainable (on_connect this)"
| error_event: "attainable this \<Longrightarrow> attainable (on_error this)"
| close_event: "attainable this \<Longrightarrow> attainable (on_close this)"
| timeout: "attainable this \<Longrightarrow> attainable (on_timeout this)"
| disconnected: "attainable this \<Longrightarrow> attainable (disconnect this)"
| socket_reset: "attainable this \<Longrightarrow> attainable (this\<lparr>connected := False, socket := None\<rparr>)"
| other_fields:
    "attainable this \<Longrightarrow> socket that = socket this \<Longrightarrow> connected that = connected this \<Longrightarrow>
     attainable that"

subsection \<open>A client of the examples\<close>

text \<open>
  A request, a codec that knows the text of this request and rejects every other text, a
  connected client, and a world whose enclave answers with a complete frame holding the one
  byte \<^verbatim>\<open>x\<close>, which is not JSON. Further the same request with the timestamp
  \<^verbatim>\<open>NaN\<close>: \<^verbatim>\<open>JSON.stringify\<close> writes \<^verbatim>\<open>NaN\<close> as \<^verbatim>\<open>null\<close>, so the JSON text of
  this request, 57 bytes long, gives \<^verbatim>\<open>null\<close> for \<^verbatim>\<open>params\<close> and for
  \<^verbatim>\<open>timestamp\<close>, and \<^verbatim>\<open>JSON.parse\<close> reads it as an object whose timestamp is
  \<^verbatim>\<open>null\<close>.
\<close>

definition ping :: TeeRequest where
  "ping = \<lparr>req_id = ''1'', req_method = ''ping'', params = JNull,
            timestamp = Finite 1700000000000\<rparr>"

definition ping_text :: "byte list" where
  "ping_text = [0x70, 0x69, 0x6E, 0x67]"

definition ping_codec :: codec where
  "ping_codec =
     \<lparr>stringify = (\<lambda>r. Inr ping_text),
      parse = (\<lambda>b. if b = ping_text then Inr (request_value ping)
                    else Inl (JsError ''SyntaxError'' ''Unexpected token''))\<rparr>"

definition test_config :: VsockConfig where
  "test_config = \<lparr>cid = 3, port = 3000, connectTimeoutMs = 5000, retryAttempts = Finite 3,
                   retryDelayMs = Finite 100\<rparr>"

definition open_client :: VsocketClient where
  "open_client = \<lparr>socket = Some \<lparr>sock_id = 0, ended = False, destroyed = False\<rparr>,
                   connected = True, config = test_config, dataBuffer = [], pendingResponse = None\<rparr>"

definition garbled_world :: world where
  "garbled_world = \<lparr>sockets_made = 1, promises_made = 0, connecting = [Connects], writing = [],
                     inbound = [Data [0, 0, 0, 1, 0x78]], wire = []\<rparr>"


definition nan_ping :: TeeRequest where
  "nan_ping = \<lparr>req_id = ''1'', req_method = ''ping'', params = JNull, timestamp = NaN\<rparr>"

definition nan_text :: "byte list" where
  "nan_text =
       [0x7B, 0x22, 0x69, 0x64, 0x22, 0x3A, 0x22, 0x31, 0x22, 0x2C, 0x22, 0x6D, 0x65, 0x74,
        0x68, 0x6F, 0x64, 0x22, 0x3A, 0x22, 0x70, 0x69, 0x6E, 0x67, 0x22, 0x2C, 0x22, 0x70,
        0x61, 0x72, 0x61, 0x6D, 0x73, 0x22, 0x3A, 0x6E, 0x75, 0x6C, 0x6C, 0x2C, 0x22, 0x74,
        0x69, 0x6D, 0x65, 0x73, 0x74, 0x61, 0x6D, 0x70, 0x22, 0x3A, 0x6E, 0x75, 0x6C, 0x6C, 0x7D]"

definition nan_codec :: codec where
  "nan_codec =
     \<lparr>stringify = (\<lambda>r. Inr nan_text),
      parse = (\<lambda>b. if b = nan_text
                    then Inr (JObject [(''id'', JString ''1''), (''method'', JString ''ping''),
                                       (''params'', JNull), (''timestamp'', JNull)])
                    else Inl (JsError ''SyntaxError'' ''Unexpected token''))\<rparr>"


section \<open>Properties of JavaScript numbers\<close>

lemma floor_log2: "0 < x \<Longrightarrow> 2 powi e \<le> x \<Longrightarrow> x < 2 powi (e + 1) \<Longrightarrow> \<lfloor>log 2 x\<rfloor> = e"
proof -
  assume a: "0 < x" "2 powi e \<le> x" "x < 2 powi (e + 1)"
  have "2 powr (real_of_int e) = (2::real) powi e" "2 powr (real_of_int e + 1) = (2::real) powi (e + 1)"
    using powr_real_of_int' [of 2 e] powr_real_of_int' [of 2 "e + 1"] by simp_all
  with a show ?thesis by (simp add: floor_log_eq_powr_iff)
qed


lemma round_half_even_of_int [simp]: "round_half_even (of_int z) = z"
  by (simp add: round_half_even_def)

lemma ulp_eq:
  assumes "x \<noteq> 0" "2 powi e \<le> \<bar>x\<bar>" "\<bar>x\<bar> < 2 powi (e + 1)" "- 1022 \<le> e"
  shows "ulp x = 2 powi (e - 52)"
proof -
  have "\<lfloor>log 2 \<bar>x\<bar>\<rfloor> = e" using assms by (intro floor_log2) simp_all
  then show ?thesis using assms(4) by (simp add: ulp_def max_def)
qed

lemma to_double_round:
  assumes "x \<noteq> 0" "2 powi e \<le> \<bar>x\<bar>" "\<bar>x\<bar> < 2 powi (e + 1)" "- 1022 \<le> e"
    and "round_half_even (x / 2 powi (e - 52)) = z"
    and "\<bar>of_int z * 2 powi (e - 52)\<bar> < (2::real) ^ 1024"
  shows "to_double x = Finite (of_int z * 2 powi (e - 52))"
proof -
  note u = ulp_eq [OF assms(1-4)]
  from assms(6) have "\<not> 2 ^ 1024 \<le> of_int z * (2::real) powi (e - 52)"
    and "\<not> of_int z * (2::real) powi (e - 52) \<le> - (2 ^ 1024)"
    by linarith+
  then show ?thesis
    using assms(1,5) by (simp add: to_double_def u Let_def)
qed

lemma to_double_exact:
  assumes "x \<noteq> 0" "2 powi e \<le> \<bar>x\<bar>" "\<bar>x\<bar> < 2 powi (e + 1)" "- 1022 \<le> e" "e \<le> 1023"
    and "x = of_int z * 2 powi (e - 52)"
  shows "to_double x = Finite x"
proof -
  have "x / 2 powi (e - 52) = of_int z" using assms(6) by simp
  then have r: "round_half_even (x / 2 powi (e - 52)) = z" by simp
  have "(2::real) powi (e + 1) \<le> 2 powi 1024"
    using assms(5) by (intro power_int_increasing) simp_all
  then have "\<bar>x\<bar> < (2::real) ^ 1024" using assms(3) by simp
  then have "\<bar>of_int z * 2 powi (e - 52)\<bar> < (2::real) ^ 1024" using assms(6) by simp
  from to_double_round [OF assms(1-4) r this] show ?thesis using assms(6) by simp
qed

lemma to_double_of_nat:
  assumes "n \<le> 2 ^ 53"
  shows "to_double (real n) = Finite (real n)"
proof (cases "n = 0")
  case True
  then show ?thesis by (simp add: to_double_def)
next
  case False
  then have nz: "real n \<noteq> 0" by simp
  define e where "e = \<lfloor>log 2 (real n)\<rfloor>"
  have pos: "0 < real n" using False by simp
  have "2 powr (real_of_int e) \<le> real n \<and> real n < 2 powr (real_of_int e + 1)"
    using floor_log_eq_powr_iff [of "real n" 2 e] pos by (simp add: e_def)
  then have lo: "2 powi e \<le> real n" and hi: "real n < 2 powi (e + 1)"
    using powr_real_of_int' [of 2 e] powr_real_of_int' [of 2 "e + 1"] by simp_all
  have "(1::real) \<le> real n" using False by simp
  have e0: "0 \<le> e"
  proof (rule ccontr)
    assume "\<not> 0 \<le> e"
    then have "(2::real) powi (e + 1) \<le> 2 powi 0" by (intro power_int_increasing) simp_all
    with hi \<open>1 \<le> real n\<close> show False by simp
  qed
  have "real n \<le> 2 ^ 53" using assms by (metis of_nat_le_iff of_nat_numeral of_nat_power)
  with lo have "(2::real) powi e \<le> 2 powi 53" by simp
  then have e53: "e \<le> 53" by (rule power_int_le_imp_le_exp [rotated]) simp_all
  show ?thesis
  proof (cases "e \<le> 52")
    case True
    have "real n = of_int (int n * 2 ^ nat (52 - e)) * 2 powi (e - 52)"
    proof -
      have "(2::real) ^ nat (52 - e) = 2 powi (52 - e)" using True by (simp add: power_int_def)
      then have "(2::real) ^ nat (52 - e) * 2 powi (e - 52) = 1"
        by (simp flip: power_int_add)
      then show ?thesis by (simp add: mult.assoc)
    qed
    then have rep: "real n = of_int (int n * 2 ^ nat (52 - e)) * 2 powi (e - 52)" .
    have lo': "2 powi e \<le> \<bar>real n\<bar>" and hi': "\<bar>real n\<bar> < 2 powi (e + 1)"
      using lo hi by simp_all
    have b: "- 1022 \<le> e" "e \<le> 1023" using e0 True by simp_all
    show ?thesis by (rule to_double_exact [OF nz lo' hi' b rep])
  next
    case False
    with e53 have e: "e = 53" by simp
    with lo assms have "real n = 2 ^ 53"
      using \<open>real n \<le> 2 ^ 53\<close> by simp
    then have rep: "real n = of_int (2 ^ 52) * 2 powi (e - 52)" using e by simp
    have lo': "2 powi e \<le> \<bar>real n\<bar>" and hi': "\<bar>real n\<bar> < 2 powi (e + 1)"
      using lo hi by simp_all
    have b: "- 1022 \<le> e" "e \<le> 1023" using e by simp_all
    show ?thesis by (rule to_double_exact [OF nz lo' hi' b rep])
  qed
qed

lemma to_double_numeral:
  "numeral w \<le> (2::nat) ^ 53 \<Longrightarrow> to_double (numeral w) = Finite (numeral w)"
  using to_double_of_nat [of "numeral w"] by simp

lemma to_double_one: "to_double 1 = Finite 1"
  using to_double_of_nat [of 1] by simp

lemma to_double_saturated: "to_double (2 ^ 53 + 1) = Finite (2 ^ 53)"
proof -
  have fl: "\<lfloor>(2::real) ^ 52 + 1 / 2\<rfloor> = 2 ^ 52" by (rule floor_unique) simp_all
  have "round_half_even ((2 ^ 53 + 1) / 2 powi (53 - 52)) = 2 ^ 52"
  proof -
    have "((2::real) ^ 53 + 1) / 2 powi (53 - 52) = 2 ^ 52 + 1 / 2" by simp
    then show ?thesis unfolding round_half_even_def fl by simp
  qed
  from to_double_round [of "2 ^ 53 + 1" 53, OF _ _ _ _ this]
  show ?thesis by simp
qed






section \<open>Properties of the retry wrapper\<close>

lemmas to_double_simps = to_double_numeral to_double_one

lemma run_persistent_failure:
  "retryWithBackoff persistent_failure three_attempts 0 =
    Some (Inl (ThrownError (JsError ''Error'' ''Persistent failure'')), 3,
      [Invoke (Finite 1) (Inl (ThrownError (JsError ''Error'' ''Persistent failure''))), Sleep (Finite 100),
       Invoke (Finite 2) (Inl (ThrownError (JsError ''Error'' ''Persistent failure''))), Sleep (Finite 200),
       Invoke (Finite 3) (Inl (ThrownError (JsError ''Error'' ''Persistent failure'')))])"
  by (simp add: retryWithBackoff_def retry_loop.simps three_attempts_def persistent_failure_def
        notify_def message_of_def to_double_simps)

lemma run_fractional:
  "retryWithBackoff persistent_failure (three_attempts\<lparr>maxAttempts := Finite (5 / 2)\<rparr>) 0 =
    Some (Inl (ThrownError (JsError ''Error'' ''Persistent failure'')), 2,
      [Invoke (Finite 1) (Inl (ThrownError (JsError ''Error'' ''Persistent failure''))), Sleep (Finite 100),
       Invoke (Finite 2) (Inl (ThrownError (JsError ''Error'' ''Persistent failure''))), Sleep (Finite 200)])"
  by (simp add: retryWithBackoff_def retry_loop.simps three_attempts_def persistent_failure_def
        notify_def message_of_def to_double_simps)

lemma invocations_append: "invocations (xs @ ys) = invocations xs @ invocations ys"
  by (induction xs rule: invocations.induct) auto

lemma retry_loop_past:
  "\<not> js_le attempt (maxAttempts options) \<Longrightarrow>
   retry_loop operation options attempt delay lastError s = Some (Inl lastError, s, [])"
  by (subst retry_loop.simps) simp

lemma retry_loop_success:
  "js_le attempt (maxAttempts options) \<Longrightarrow> operation s = (Inr v, s1) \<Longrightarrow>
   retry_loop operation options attempt delay lastError s
     = Some (Inr v, s1, [Invoke attempt (Inr v)])"
  by (subst retry_loop.simps) simp

lemma retry_loop_unreadable:
  "js_less attempt (maxAttempts options) \<Longrightarrow> js_le attempt (maxAttempts options) \<Longrightarrow>
   operation s = (Inl error, s1) \<Longrightarrow> message_of error = Inl type_error \<Longrightarrow>
   retry_loop operation options attempt delay lastError s
     = Some (Inl (ThrownError type_error), s1, [Invoke attempt (Inl error)])"
  by (subst retry_loop.simps) simp

lemma retry_loop_observer_throws:
  "js_less attempt (maxAttempts options) \<Longrightarrow> js_le attempt (maxAttempts options) \<Longrightarrow>
   operation s = (Inl error, s1) \<Longrightarrow> message_of error = Inr text \<Longrightarrow>
   notify options attempt error s1 = (Some thrown, s2) \<Longrightarrow>
   retry_loop operation options attempt delay lastError s
     = Some (Inl thrown, s2, [Invoke attempt (Inl error)])"
  by (subst retry_loop.simps) simp

lemma retry_loop_retry:
  "js_less attempt (maxAttempts options) \<Longrightarrow> js_le attempt (maxAttempts options) \<Longrightarrow>
   operation s = (Inl error, s1) \<Longrightarrow> message_of error = Inr text \<Longrightarrow>
   notify options attempt error s1 = (None, s2) \<Longrightarrow>
   retry_loop operation options attempt delay lastError s
     = Option.bind
         (retry_loop operation options (js_plus attempt (Finite 1))
            (js_times delay (backoffMultiplier options)) error s2)
         (\<lambda>rest. Some (emit [Invoke attempt (Inl error), Sleep delay] rest))"
  by (subst retry_loop.simps) simp

lemma retry_loop_last:
  "\<not> js_less attempt (maxAttempts options) \<Longrightarrow> js_le attempt (maxAttempts options) \<Longrightarrow>
   operation s = (Inl error, s1) \<Longrightarrow>
   retry_loop operation options attempt delay lastError s
     = Option.bind
         (retry_loop operation options (js_plus attempt (Finite 1)) delay error s1)
         (\<lambda>rest. Some (emit [Invoke attempt (Inl error)] rest))"
  by (subst retry_loop.simps) simp

lemma js_succ: "k < 2 ^ 53 \<Longrightarrow> js_plus (Finite (real k)) (Finite 1) = Finite (real (Suc k))"
  using to_double_of_nat [of "Suc k"] by (simp add: add.commute)

lemma message_of_readable:
  "error \<noteq> ThrownValue JUndefined \<Longrightarrow> error \<noteq> ThrownValue JNull \<Longrightarrow>
   \<exists>text. message_of error = Inr text"
  by (cases error; cases "case error of ThrownValue v \<Rightarrow> v | _ \<Rightarrow> JNull")
     (auto simp: message_of_def get_prop_def split: option.splits)

lemma notify_quiet:
  "\<forall>f k e s1. onRetry options = Some f \<longrightarrow> fst (f k e s1) = None \<Longrightarrow>
   \<exists>s2. notify options attempt error s = (None, s2)"
  by (cases "onRetry options") (auto simp: notify_def prod_eq_iff)

lemma retry_loop_whole_induct [consumes 5, case_names past success final retry]:
  assumes whole: "maxAttempts options = Finite (real n)" and bound: "n < 2 ^ 53"
    and readable: "\<forall>s e s1. operation s = (Inl e, s1) \<longrightarrow>
                     e \<noteq> ThrownValue JUndefined \<and> e \<noteq> ThrownValue JNull"
    and quiet: "\<forall>f k e s1. onRetry options = Some f \<longrightarrow> fst (f k e s1) = None"
    and range: "1 \<le> k" "k \<le> Suc n"
    and past: "\<And>delay lastError s. P (Suc n) delay lastError s (Inl lastError, s, [])"
    and success: "\<And>k delay lastError s v s1.
            1 \<le> k \<Longrightarrow> k \<le> n \<Longrightarrow> operation s = (Inr v, s1) \<Longrightarrow>
            P k delay lastError s (Inr v, s1, [Invoke (Finite (real k)) (Inr v)])"
    and final: "\<And>delay lastError s error s1.
            1 \<le> n \<Longrightarrow> operation s = (Inl error, s1) \<Longrightarrow>
            P n delay lastError s (Inl error, s1, [Invoke (Finite (real n)) (Inl error)])"
    and retry: "\<And>k delay lastError s error s1 s2 r s' tr.
            1 \<le> k \<Longrightarrow> k < n \<Longrightarrow> operation s = (Inl error, s1) \<Longrightarrow>
            notify options (Finite (real k)) error s1 = (None, s2) \<Longrightarrow>
            retry_loop operation options (Finite (real (Suc k)))
              (js_times delay (backoffMultiplier options)) error s2 = Some (r, s', tr) \<Longrightarrow>
            P (Suc k) (js_times delay (backoffMultiplier options)) error s2 (r, s', tr) \<Longrightarrow>
            P k delay lastError s
              (r, s', Invoke (Finite (real k)) (Inl error) # Sleep delay # tr)"
  shows "\<exists>res. retry_loop operation options (Finite (real k)) delay lastError s = Some res \<and>
               P k delay lastError s res"
  using range
proof (induction "Suc n - k" arbitrary: k delay lastError s)
  case 0
  then have k: "k = Suc n" by simp
  have "\<not> js_le (Finite (real k)) (maxAttempts options)" by (simp add: whole k)
  from retry_loop_past [OF this, of operation delay lastError s] past [of delay lastError s]
  show ?case by (simp add: k)
next
  case (Suc j)
  then have kn: "k \<le> n" and k1: "1 \<le> k" by simp_all
  have le: "js_le (Finite (real k)) (maxAttempts options)" using kn by (simp add: whole)
  have k53: "k < 2 ^ 53" using kn bound by simp
  obtain out s1 where op: "operation s = (out, s1)" by (cases "operation s")
  show ?case
  proof (cases out)
    case (Inr v)
    with op have op': "operation s = (Inr v, s1)" by simp
    from retry_loop_success [where operation = operation and s = s, OF le op', of delay lastError] success [OF k1 kn op', of delay lastError]
    show ?thesis by simp
  next
    case (Inl error)
    with op have op': "operation s = (Inl error, s1)" by simp
    show ?thesis
    proof (cases "k < n")
      case False
      with kn have kn': "k = n" by simp
      have nl: "\<not> js_less (Finite (real k)) (maxAttempts options)" by (simp add: whole kn')
      have "\<not> js_le (Finite (real (Suc k))) (maxAttempts options)" by (simp add: whole kn')
      from retry_loop_past [OF this, of operation delay error s1]
      have "retry_loop operation options (js_plus (Finite (real k)) (Finite 1)) delay error s1
              = Some (Inl error, s1, [])"
        by (simp only: js_succ [OF k53])
      with retry_loop_last [where operation = operation and s = s, OF nl le op', of delay lastError]
      have "retry_loop operation options (Finite (real k)) delay lastError s
              = Some (Inl error, s1, [Invoke (Finite (real k)) (Inl error)])"
        by simp
      with final [OF _ op', of delay lastError] k1 kn' show ?thesis by simp
    next
      case True
      then have less: "js_less (Finite (real k)) (maxAttempts options)" by (simp add: whole)
      from readable op' have "error \<noteq> ThrownValue JUndefined" "error \<noteq> ThrownValue JNull"
        by blast+
      from message_of_readable [OF this] obtain m where msg: "message_of error = Inr m" ..
      from notify_quiet [OF quiet] obtain s2
        where obs: "notify options (Finite (real k)) error s1 = (None, s2)" by blast
      have "Suc n - Suc k = j" using Suc.hyps(2) by simp
      from Suc.hyps(1) [OF this [symmetric], of "js_times delay (backoffMultiplier options)" error s2]
        True
      obtain res where rec: "retry_loop operation options (Finite (real (Suc k)))
            (js_times delay (backoffMultiplier options)) error s2 = Some res"
        and ih: "P (Suc k) (js_times delay (backoffMultiplier options)) error s2 res"
        by auto
      obtain r s' tr where res: "res = (r, s', tr)" by (cases res)
      from retry_loop_retry [where operation = operation and s = s, OF less le op' msg obs,
          of delay lastError, unfolded js_succ [OF k53]] rec
      have "retry_loop operation options (Finite (real k)) delay lastError s
              = Some (r, s', Invoke (Finite (real k)) (Inl error) # Sleep delay # tr)"
        by (simp add: res)
      with retry [OF k1 True op' obs rec [unfolded res] ih [unfolded res]] show ?thesis by simp
    qed
  qed
qed

lemma retry_loop_calls:
  assumes whole: "maxAttempts options = Finite (real n)" and bound: "n < 2 ^ 53"
    and readable: "\<forall>s e s1. operation s = (Inl e, s1) \<longrightarrow>
                     e \<noteq> ThrownValue JUndefined \<and> e \<noteq> ThrownValue JNull"
    and quiet: "\<forall>f k e s1. onRetry options = Some f \<longrightarrow> fst (f k e s1) = None"
    and range: "1 \<le> k" "k \<le> Suc n"
  shows "\<exists>res :: ('a, 's) retry_result.
       retry_loop operation options (Finite (real k)) delay lastError s = Some res \<and>
     (case res of (r, s', tr) \<Rightarrow>
        length (invocations tr) \<le> Suc n - k \<and>
        map fst (invocations tr)
          = map (\<lambda>i. Finite (real i)) [k..<k + length (invocations tr)] \<and>
        (\<forall>i v. i < length (invocations tr) \<and> snd (invocations tr ! i) = Inr v \<longrightarrow>
               Suc i = length (invocations tr) \<and> r = Inr v) \<and>
        (\<forall>v. r = Inr v \<longrightarrow> invocations tr \<noteq> [] \<and> snd (last (invocations tr)) = Inr v) \<and>
        ((\<forall>i<length (invocations tr). isl (snd (invocations tr ! i))) \<and> k \<le> n \<longrightarrow>
           length (invocations tr) = Suc n - k \<and> r = snd (last (invocations tr))))"
proof (rule retry_loop_whole_induct [where operation = operation and k = k
      and P = "\<lambda>k delay lastError s res. (case res of (r, s', tr) \<Rightarrow>
        length (invocations tr) \<le> Suc n - k \<and>
        map fst (invocations tr)
          = map (\<lambda>i. Finite (real i)) [k..<k + length (invocations tr)] \<and>
        (\<forall>i v. i < length (invocations tr) \<and> snd (invocations tr ! i) = Inr v \<longrightarrow>
               Suc i = length (invocations tr) \<and> r = Inr v) \<and>
        (\<forall>v. r = Inr v \<longrightarrow> invocations tr \<noteq> [] \<and> snd (last (invocations tr)) = Inr v) \<and>
        ((\<forall>i<length (invocations tr). isl (snd (invocations tr ! i))) \<and> k \<le> n \<longrightarrow>
           length (invocations tr) = Suc n - k \<and> r = snd (last (invocations tr))))",
      OF whole bound readable quiet range], goal_cases)
  case (1 delay lastError s)
  show ?case by simp
next
  case (2 k delay lastError s v s1)
  let ?tr = "[Invoke (Finite (real k)) (Inr v)]"
  have a: "length (invocations ?tr) \<le> Suc n - k" using 2(2) by simp
  have b: "map fst (invocations ?tr)
             = map (\<lambda>i. Finite (real i)) [k..<k + length (invocations ?tr)]"
    by simp
  have c: "\<forall>i w. i < length (invocations ?tr) \<and> snd (invocations ?tr ! i) = Inr w \<longrightarrow>
             Suc i = length (invocations ?tr) \<and> Inr v = (Inr w :: thrown + 'a)"
    by (simp add: nth_Cons')
  have d: "\<forall>w. Inr v = (Inr w :: thrown + 'a) \<longrightarrow>
             invocations ?tr \<noteq> [] \<and> snd (last (invocations ?tr)) = Inr w"
    by simp
  have "\<not> (\<forall>i<length (invocations ?tr). isl (snd (invocations ?tr ! i)))"
  proof
    assume "\<forall>i<length (invocations ?tr). isl (snd (invocations ?tr ! i))"
    from this [rule_format, of 0] show False by simp
  qed
  then have e: "(\<forall>i<length (invocations ?tr). isl (snd (invocations ?tr ! i))) \<and> k \<le> n \<longrightarrow>
      length (invocations ?tr) = Suc n - k \<and> Inr v = snd (last (invocations ?tr))"
    by blast
  show ?case unfolding prod.case by (intro conjI a b c d e)
next
  case (3 delay lastError s error s1)
  let ?tr = "[Invoke (Finite (real n)) (Inl error)] :: 'a retry_event list"
  have a: "length (invocations ?tr) \<le> Suc n - n" by simp
  have b: "map fst (invocations ?tr)
             = map (\<lambda>i. Finite (real i)) [n..<n + length (invocations ?tr)]"
    by simp
  have c: "\<forall>i w. i < length (invocations ?tr) \<and> snd (invocations ?tr ! i) = Inr w \<longrightarrow>
             Suc i = length (invocations ?tr) \<and> Inl error = (Inr w :: thrown + 'a)"
    by (simp add: nth_Cons')
  have d: "\<forall>w. Inl error = (Inr w :: thrown + 'a) \<longrightarrow>
             invocations ?tr \<noteq> [] \<and> snd (last (invocations ?tr)) = Inr w"
    by simp
  have e: "(\<forall>i<length (invocations ?tr). isl (snd (invocations ?tr ! i))) \<and> n \<le> n \<longrightarrow>
      length (invocations ?tr) = Suc n - n \<and> Inl error = snd (last (invocations ?tr))"
    by simp
  show ?case unfolding prod.case by (intro conjI a b c d e)
next
  case (4 k delay lastError s error s1 s2 r s' tr)
  note retry = this
  let ?cs = "invocations tr"
  note ih = retry(6) [unfolded prod.case]
  note len = ih [THEN conjunct1]
    and nums = ih [THEN conjunct2, THEN conjunct1]
    and first = ih [THEN conjunct2, THEN conjunct2, THEN conjunct1]
    and ret = ih [THEN conjunct2, THEN conjunct2, THEN conjunct2, THEN conjunct1]
    and exh = ih [THEN conjunct2, THEN conjunct2, THEN conjunct2, THEN conjunct2]
  have a: "length (invocations (Invoke (Finite (real k)) (Inl error) # Sleep delay # tr)) \<le> Suc n - k"
    using len retry(2) by simp
  have b: "map fst (invocations (Invoke (Finite (real k)) (Inl error) # Sleep delay # tr))
      = map (\<lambda>i. Finite (real i))
          [k..<k + length (invocations (Invoke (Finite (real k)) (Inl error) # Sleep delay # tr))]"
    using nums by (simp add: upt_conv_Cons del: upt_Suc)
  have c: "\<forall>i v. i < length (invocations (Invoke (Finite (real k)) (Inl error) # Sleep delay # tr)) \<and>
       snd (invocations (Invoke (Finite (real k)) (Inl error) # Sleep delay # tr) ! i) = Inr v \<longrightarrow>
       Suc i = length (invocations (Invoke (Finite (real k)) (Inl error) # Sleep delay # tr)) \<and> r = Inr v"
  proof (intro allI impI)
    fix i v
    assume h: "i < length (invocations (Invoke (Finite (real k)) (Inl error) # Sleep delay # tr)) \<and>
       snd (invocations (Invoke (Finite (real k)) (Inl error) # Sleep delay # tr) ! i) = Inr v"
    then have "i \<noteq> 0" by (cases i) simp_all
    then obtain j where i: "i = Suc j" using not0_implies_Suc by blast
    with h first [rule_format, of j v]
    show "Suc i = length (invocations (Invoke (Finite (real k)) (Inl error) # Sleep delay # tr)) \<and> r = Inr v"
      by simp
  qed
  have d: "\<forall>v. r = Inr v \<longrightarrow>
       invocations (Invoke (Finite (real k)) (Inl error) # Sleep delay # tr) \<noteq> [] \<and>
       snd (last (invocations (Invoke (Finite (real k)) (Inl error) # Sleep delay # tr))) = Inr v"
    using ret by simp
  have e: "(\<forall>i<length (invocations (Invoke (Finite (real k)) (Inl error) # Sleep delay # tr)).
        isl (snd (invocations (Invoke (Finite (real k)) (Inl error) # Sleep delay # tr) ! i))) \<and> k \<le> n \<longrightarrow>
      length (invocations (Invoke (Finite (real k)) (Inl error) # Sleep delay # tr)) = Suc n - k \<and>
      r = snd (last (invocations (Invoke (Finite (real k)) (Inl error) # Sleep delay # tr)))"
  proof (intro impI, elim conjE)
    assume all: "\<forall>i<length (invocations (Invoke (Finite (real k)) (Inl error) # Sleep delay # tr)).
        isl (snd (invocations (Invoke (Finite (real k)) (Inl error) # Sleep delay # tr) ! i))"
    have "\<forall>i<length ?cs. isl (snd (?cs ! i))"
    proof (intro allI impI)
      fix i assume "i < length ?cs"
      with all [rule_format, of "Suc i"] show "isl (snd (?cs ! i))" by simp
    qed
    with exh retry(2) have l: "length ?cs = Suc n - Suc k" and r: "r = snd (last ?cs)" by simp_all
    from l retry(2) have "0 < length ?cs" by simp
    then have "?cs \<noteq> []" by simp
    with l r retry(2)
    show "length (invocations (Invoke (Finite (real k)) (Inl error) # Sleep delay # tr)) = Suc n - k \<and>
      r = snd (last (invocations (Invoke (Finite (real k)) (Inl error) # Sleep delay # tr)))"
      by simp
  qed
  show ?case unfolding prod.case by (intro conjI a b c d e)
qed








lemma run_third_time_lucky:
  "retryWithBackoff third_time_lucky three_attempts 0 =
    Some (Inr 2, 3,
      [Invoke (Finite 1) (Inl (ThrownError (JsError ''Error'' ''Fail''))), Sleep (Finite 100),
       Invoke (Finite 2) (Inl (ThrownError (JsError ''Error'' ''Fail''))), Sleep (Finite 200),
       Invoke (Finite 3) (Inr 2)])"
  by (simp add: retryWithBackoff_def retry_loop.simps three_attempts_def third_time_lucky_def
        notify_def message_of_def to_double_simps)

lemma run_single_attempt:
  "retryWithBackoff persistent_failure one_attempt 0 =
    Some (Inl (ThrownError (JsError ''Error'' ''Persistent failure'')), 1,
      [Invoke (Finite 1) (Inl (ThrownError (JsError ''Error'' ''Persistent failure'')))])"
  by (simp add: retryWithBackoff_def retry_loop.simps one_attempt_def persistent_failure_def
        to_double_simps)

lemma run_rejects_undefined:
  "retryWithBackoff rejects_undefined three_attempts 0 =
    Some (Inl (ThrownError (JsError ''TypeError''
                 (''Cannot read properties of undefined (reading '' @ [CHR 0x27] @ ''message'' @ [CHR 0x27] @ '')''))),
          1, [Invoke (Finite 1) (Inl (ThrownValue JUndefined))])"
  by (simp add: retryWithBackoff_def retry_loop.simps three_attempts_def rejects_undefined_def
        message_of_def get_prop_def TypeError_def quoted_def)

lemma run_throwing_observer:
  "retryWithBackoff persistent_failure (three_attempts\<lparr>onRetry := Some throwing_observer\<rparr>) 0 =
    Some (Inl (ThrownError (JsError ''Error'' ''observer failed'')), 1,
          [Invoke (Finite 1) (Inl (ThrownError (JsError ''Error'' ''Persistent failure'')))])"
  by (simp add: retryWithBackoff_def retry_loop.simps three_attempts_def persistent_failure_def
        message_of_def notify_def throwing_observer_def)

lemma stuck_at_saturation:
  assumes "maxAttempts options = Finite (2 ^ 53)"
  shows "retry_loop persistent_failure options (Finite (2 ^ 53)) delay lastError s = None"
proof (rule ccontr)
  assume "retry_loop persistent_failure options (Finite (2 ^ 53)) delay lastError s \<noteq> None"
  then obtain y where y: "retry_loop persistent_failure options (Finite (2 ^ 53)) delay lastError s = Some y"
    by auto
  have "persistent_failure = persistent_failure \<and> maxAttempts options = Finite (2 ^ 53) \<and>
        Finite (2 ^ 53) = Finite (2 ^ 53) \<longrightarrow> False"
  proof (rule retry_loop.raw_induct [where P = "\<lambda>operation options attempt delay lastError s y.
            operation = persistent_failure \<and> maxAttempts options = Finite (2 ^ 53) \<and>
            attempt = Finite (2 ^ 53) \<longrightarrow> False", OF _ y], goal_cases)
    case (1 loop operation options attempt delay lastError s y)
    show ?case
    proof (intro impI, elim conjE)
      assume op: "operation = persistent_failure" and m: "maxAttempts options = Finite (2 ^ 53)"
        and a: "attempt = Finite (2 ^ 53)"
      have next_attempt: "js_plus attempt (Finite 1) = Finite (2 ^ 53)"
        using to_double_saturated by (simp add: a)
      from 1(2) obtain rest
        where "loop operation options (js_plus attempt (Finite 1)) delay
                 (ThrownError (JsError ''Error'' ''Persistent failure'')) (Suc s) = Some rest"
        unfolding op m a persistent_failure_def
        by (auto simp: bind_eq_Some_conv simp del: js_plus.simps)
      from 1(1) [OF this] op m next_attempt show False by simp
    qed
  qed
  with assms show False by simp
qed

lemma never_reaches_the_bound:
  assumes "maxAttempts options = Finite (2 ^ 53)" and "onRetry options = None"
  shows "1 \<le> k \<Longrightarrow> k \<le> 2 ^ 53 \<Longrightarrow>
         retry_loop persistent_failure options (Finite (real k)) delay lastError s = None"
proof (induction "2 ^ 53 - k" arbitrary: k delay lastError s)
  case 0
  then have "real k = 2 ^ 53" by simp
  then show ?case using stuck_at_saturation [OF assms(1)] by simp
next
  case (Suc j)
  then have k: "k < 2 ^ 53" by simp
  then have "real k < 2 ^ 53"
    by (metis of_nat_less_iff of_nat_numeral of_nat_power)
  then have less: "js_less (Finite (real k)) (maxAttempts options)"
    and le: "js_le (Finite (real k)) (maxAttempts options)"
    by (simp_all add: assms(1))
  have op: "persistent_failure s
              = (Inl (ThrownError (JsError ''Error'' ''Persistent failure'')), Suc s)"
    by (simp add: persistent_failure_def)
  have msg: "message_of (ThrownError (JsError ''Error'' ''Persistent failure''))
               = Inr (JString ''Persistent failure'')"
    by (simp add: message_of_def)
  have obs: "notify options (Finite (real k)) (ThrownError (JsError ''Error'' ''Persistent failure'')) (Suc s)
               = (None, Suc s)"
    by (simp add: notify_def assms(2))
  have "2 ^ 53 - Suc k = j" using Suc.hyps(2) by simp
  from Suc.hyps(1) [OF this [symmetric]] k
  have "retry_loop persistent_failure options (Finite (real (Suc k)))
          (js_times delay (backoffMultiplier options))
          (ThrownError (JsError ''Error'' ''Persistent failure'')) (Suc s) = None"
    by simp
  with retry_loop_retry [where operation = persistent_failure and s = s, OF less le op msg obs,
      of delay lastError, unfolded js_succ [OF k]]
  show ?case by simp
qed

lemma run_saturated:
  "retryWithBackoff persistent_failure (three_attempts\<lparr>maxAttempts := Finite (2 ^ 53)\<rparr>) 0 = None"
  unfolding retryWithBackoff_def
  using never_reaches_the_bound [of "three_attempts\<lparr>maxAttempts := Finite (2 ^ 53)\<rparr>" 1]
  by (simp add: three_attempts_def)


lemma retry_loop_first_call:
  assumes whole: "maxAttempts options = Finite (real n)" and bound: "n < 2 ^ 53"
    and readable: "\<forall>s e s1. operation s = (Inl e, s1) \<longrightarrow>
                     e \<noteq> ThrownValue JUndefined \<and> e \<noteq> ThrownValue JNull"
    and quiet: "\<forall>f k e s1. onRetry options = Some f \<longrightarrow> fst (f k e s1) = None"
    and range: "1 \<le> k" "k \<le> Suc n"
  shows "\<exists>res :: ('a, 's) retry_result.
       retry_loop operation options (Finite (real k)) delay lastError s = Some res \<and>
     (case res of (r, s', tr) \<Rightarrow>
        k \<le> n \<longrightarrow> tr \<noteq> [] \<and> hd tr = Invoke (Finite (real k)) (fst (operation s)))"
proof (rule retry_loop_whole_induct [where operation = operation and k = k
      and P = "\<lambda>k delay lastError s res. (case res of (r, s', tr) \<Rightarrow>
        k \<le> n \<longrightarrow> tr \<noteq> [] \<and> hd tr = Invoke (Finite (real k)) (fst (operation s)))",
      OF whole bound readable quiet range], goal_cases)
  case (1 delay lastError s)
  show ?case by simp
next
  case (2 k delay lastError s v s1)
  then show ?case by simp
next
  case (3 delay lastError s error s1)
  then show ?case by simp
next
  case (4 k delay lastError s error s1 s2 r s' tr)
  then show ?case by simp
qed


text \<open>
  Claim C5, as amended. Take a whole number of attempts \<open>n\<close> with \<open>1 \<le> n < 2 ^ 53\<close>, an
  operation that never rejects with \<^verbatim>\<open>undefined\<close> or \<^verbatim>\<open>null\<close>, and an observer, if
  any, that does not throw. Then the wrapper returns. Its first call of the operation is
  made in the state it was started in; it calls the operation at most \<open>n\<close> times, as
  attempts \<open>1, 2, \<dots>\<close>; a call that succeeds is the last call and its value is the value
  returned (the wrapper returns at the first success, and returns nothing else); and when
  every call has failed there were exactly \<open>n\<close> calls and what is thrown is the very value
  the last call rejected with.
\<close>

theorem retryWithBackoff_attempts:
  assumes whole: "maxAttempts options = Finite (real n)" and pos: "1 \<le> n" and bound: "n < 2 ^ 53"
    and readable: "\<forall>s e s1. operation s = (Inl e, s1) \<longrightarrow>
                     e \<noteq> ThrownValue JUndefined \<and> e \<noteq> ThrownValue JNull"
    and quiet: "\<forall>f k e s1. onRetry options = Some f \<longrightarrow> fst (f k e s1) = None"
  shows "\<exists>r s' tr.
     retryWithBackoff operation options s = Some (r, s', tr) \<and>
     hd tr = Invoke (Finite 1) (fst (operation s)) \<and>
     length (invocations tr) \<le> n \<and>
     map fst (invocations tr) = map (\<lambda>i. Finite (real i)) [1..<Suc (length (invocations tr))] \<and>
     (\<forall>i v. i < length (invocations tr) \<and> snd (invocations tr ! i) = Inr v \<longrightarrow>
            Suc i = length (invocations tr) \<and> r = Inr v) \<and>
     (\<forall>v. r = Inr v \<longrightarrow> invocations tr \<noteq> [] \<and> snd (last (invocations tr)) = Inr v) \<and>
     ((\<forall>i<length (invocations tr). isl (snd (invocations tr ! i))) \<longrightarrow>
        length (invocations tr) = n \<and> r = snd (last (invocations tr)))"
proof -
  have range: "1 \<le> (1::nat)" "1 \<le> Suc n" by simp_all
  from retry_loop_calls [OF whole bound readable quiet range, of "delayMs options" "ThrownValue JUndefined" s]
  obtain r s' tr
    where run: "retry_loop operation options (Finite 1) (delayMs options) (ThrownValue JUndefined) s
                  = Some (r, s', tr)"
      and calls: "length (invocations tr) \<le> Suc n - 1 \<and>
        map fst (invocations tr) = map (\<lambda>i. Finite (real i)) [1..<1 + length (invocations tr)] \<and>
        (\<forall>i v. i < length (invocations tr) \<and> snd (invocations tr ! i) = Inr v \<longrightarrow>
               Suc i = length (invocations tr) \<and> r = Inr v) \<and>
        (\<forall>v. r = Inr v \<longrightarrow> invocations tr \<noteq> [] \<and> snd (last (invocations tr)) = Inr v) \<and>
        ((\<forall>i<length (invocations tr). isl (snd (invocations tr ! i))) \<and> 1 \<le> n \<longrightarrow>
           length (invocations tr) = Suc n - 1 \<and> r = snd (last (invocations tr)))"
    by (auto simp del: upt_Suc)
  from retry_loop_first_call [OF whole bound readable quiet range, of "delayMs options" "ThrownValue JUndefined" s]
    run pos
  have first: "hd tr = Invoke (Finite 1) (fst (operation s))" by simp
  show ?thesis
  proof (intro exI conjI)
    show "retryWithBackoff operation options s = Some (r, s', tr)"
      using run by (simp add: retryWithBackoff_def)
    show "hd tr = Invoke (Finite 1) (fst (operation s))" by (rule first)
    show "length (invocations tr) \<le> n" using calls by simp
    show "map fst (invocations tr) = map (\<lambda>i. Finite (real i)) [1..<Suc (length (invocations tr))]"
      using calls [THEN conjunct2, THEN conjunct1] by (simp del: upt_Suc)
    show "\<forall>i v. i < length (invocations tr) \<and> snd (invocations tr ! i) = Inr v \<longrightarrow>
            Suc i = length (invocations tr) \<and> r = Inr v"
      by (rule calls [THEN conjunct2, THEN conjunct2, THEN conjunct1])
    show "\<forall>v. r = Inr v \<longrightarrow> invocations tr \<noteq> [] \<and> snd (last (invocations tr)) = Inr v"
      by (rule calls [THEN conjunct2, THEN conjunct2, THEN conjunct2, THEN conjunct1])
    show "(\<forall>i<length (invocations tr). isl (snd (invocations tr ! i))) \<longrightarrow>
        length (invocations tr) = n \<and> r = snd (last (invocations tr))"
      using calls [THEN conjunct2, THEN conjunct2, THEN conjunct2, THEN conjunct2] pos by simp
  qed
qed

theorem retryWithBackoff_attempts_witness:
  "(\<exists>s' tr. retryWithBackoff persistent_failure three_attempts 0
              = Some (Inl (ThrownError (JsError ''Error'' ''Persistent failure'')), s', tr) \<and>
            length (invocations tr) = 3) \<and>
   (\<exists>s' tr. retryWithBackoff third_time_lucky three_attempts 0 = Some (Inr 2, s', tr) \<and>
            length (invocations tr) = 3)"
proof -
  have whole: "maxAttempts three_attempts = Finite (real 3)" by (simp add: three_attempts_def)
  have quiet: "\<forall>f k e s1. onRetry three_attempts = Some f \<longrightarrow> fst (f k e s1) = None"
    by (simp add: three_attempts_def)
  have readable: "\<forall>s e s1. persistent_failure s = (Inl e, s1) \<longrightarrow>
                     e \<noteq> ThrownValue JUndefined \<and> e \<noteq> ThrownValue JNull"
    by (auto simp: persistent_failure_def)
  from retryWithBackoff_attempts [OF whole _ _ readable quiet, of 0]
  obtain r s' tr where run: "retryWithBackoff persistent_failure three_attempts 0 = Some (r, s', tr)"
    and exhausted: "(\<forall>i<length (invocations tr). isl (snd (invocations tr ! i))) \<longrightarrow>
        length (invocations tr) = 3 \<and> r = snd (last (invocations tr))"
    by auto
  from run have tr: "tr = [Invoke (Finite 1) (Inl (ThrownError (JsError ''Error'' ''Persistent failure''))), Sleep (Finite 100),
       Invoke (Finite 2) (Inl (ThrownError (JsError ''Error'' ''Persistent failure''))), Sleep (Finite 200),
       Invoke (Finite 3) (Inl (ThrownError (JsError ''Error'' ''Persistent failure'')))]"
    using run_persistent_failure by auto
  have "\<forall>i<length (invocations tr). isl (snd (invocations tr ! i))"
    unfolding tr by (simp add: less_Suc_eq numeral_3_eq_3)
  with exhausted have three: "length (invocations tr) = 3" and "r = snd (last (invocations tr))"
    by simp_all
  then have "r = Inl (ThrownError (JsError ''Error'' ''Persistent failure''))"
    unfolding tr by simp
  with run three
  have always: "\<exists>s' tr. retryWithBackoff persistent_failure three_attempts 0
              = Some (Inl (ThrownError (JsError ''Error'' ''Persistent failure'')), s', tr) \<and>
            length (invocations tr) = 3"
    by blast
  have readable': "\<forall>s e s1. third_time_lucky s = (Inl e, s1) \<longrightarrow>
                     e \<noteq> ThrownValue JUndefined \<and> e \<noteq> ThrownValue JNull"
    by (auto simp: third_time_lucky_def)
  from retryWithBackoff_attempts [OF whole _ _ readable' quiet, of 0]
  obtain r2 s2 tr2
    where run2: "retryWithBackoff third_time_lucky three_attempts 0 = Some (r2, s2, tr2)"
      and first: "\<forall>i v. i < length (invocations tr2) \<and> snd (invocations tr2 ! i) = Inr v \<longrightarrow>
            Suc i = length (invocations tr2) \<and> r2 = Inr v"
    by auto
  from run2 have tr2: "tr2 = [Invoke (Finite 1) (Inl (ThrownError (JsError ''Error'' ''Fail''))), Sleep (Finite 100),
       Invoke (Finite 2) (Inl (ThrownError (JsError ''Error'' ''Fail''))), Sleep (Finite 200),
       Invoke (Finite 3) (Inr 2)]"
    using run_third_time_lucky by auto
  have "2 < length (invocations tr2) \<and> snd (invocations tr2 ! 2) = Inr 2"
    unfolding tr2 by simp
  with first have "Suc 2 = length (invocations tr2) \<and> r2 = Inr 2" by blast
  with run2
  have lucky: "\<exists>s' tr. retryWithBackoff third_time_lucky three_attempts 0 = Some (Inr 2, s', tr) \<and>
            length (invocations tr) = 3"
    by auto
  from always lucky show ?thesis ..
qed

text \<open>
  Claim C5 as stated does not hold. With \<open>maxAttempts = 3\<close>, an operation that rejects
  with \<^verbatim>\<open>undefined\<close> is called once and the wrapper throws a \<^verbatim>\<open>TypeError\<close>, raised by
  its own read of \<^verbatim>\<open>lastError.message\<close>; with an observer that throws, the operation
  is called once and the wrapper throws the observer's error, not the operation's. With
  \<open>maxAttempts = 2.5\<close> the operation is called twice. With \<open>maxAttempts = 2 ^ 53\<close> the
  call never returns: \<^verbatim>\<open>attempt++\<close> leaves the counter at \<open>2 ^ 53\<close>.
\<close>

theorem retryWithBackoff_gives_up_early:
  "retryWithBackoff rejects_undefined three_attempts 0 =
     Some (Inl (ThrownError (JsError ''TypeError''
                  (''Cannot read properties of undefined (reading '' @ [CHR 0x27] @ ''message'' @ [CHR 0x27] @ '')''))),
           1, [Invoke (Finite 1) (Inl (ThrownValue JUndefined))]) \<and>
   retryWithBackoff persistent_failure (three_attempts\<lparr>onRetry := Some throwing_observer\<rparr>) 0 =
     Some (Inl (ThrownError (JsError ''Error'' ''observer failed'')), 1,
           [Invoke (Finite 1) (Inl (ThrownError (JsError ''Error'' ''Persistent failure'')))]) \<and>
   retryWithBackoff persistent_failure (three_attempts\<lparr>maxAttempts := Finite (5 / 2)\<rparr>) 0 =
     Some (Inl (ThrownError (JsError ''Error'' ''Persistent failure'')), 2,
       [Invoke (Finite 1) (Inl (ThrownError (JsError ''Error'' ''Persistent failure''))), Sleep (Finite 100),
        Invoke (Finite 2) (Inl (ThrownError (JsError ''Error'' ''Persistent failure''))), Sleep (Finite 200)]) \<and>
   retryWithBackoff persistent_failure (three_attempts\<lparr>maxAttempts := Finite (2 ^ 53)\<rparr>) 0 = None"
  by (intro conjI run_rejects_undefined run_throwing_observer run_fractional run_saturated)




text \<open>
  Claim C10. With \<open>maxAttempts = 0\<close> the loop body never runs: the operation is not called,
  the world is untouched, nothing is waited for, and the wrapper throws \<^verbatim>\<open>lastError\<close>
  as initialised, the value \<^verbatim>\<open>undefined\<close>, not an error object.
\<close>

theorem retryWithBackoff_zero_attempts:
  "retryWithBackoff operation (options\<lparr>maxAttempts := Finite 0\<rparr>) s
     = Some (Inl (ThrownValue JUndefined), s, [])"
  by (simp add: retryWithBackoff_def retry_loop_past)


section \<open>Properties of the guardian client\<close>

lemma length_answers: "length (answers ax sent calls) = length calls"
  by (induction calls arbitrary: sent) auto


lemma submit_loop_all_fail:
  "\<forall>i<length eps. isl (map read_submission
       (answers (axios pf) sent (map (submit_call cfg body) eps)) ! i) \<Longrightarrow>
   submit_loop pf cfg body eps lastError sent
     = (Inl (L3Error (''All guardians unreachable: '' @ last_message
              (if eps = [] then lastError
               else Some (projl (last (map read_submission
                      (answers (axios pf) sent (map (submit_call cfg body) eps)))))))),
        sent @ map (submit_call cfg body) eps)"
proof (induction eps arbitrary: lastError sent)
  case Nil
  then show ?case by simp
next
  case (Cons endpoint rest)
  let ?c = "submit_call cfg body endpoint"
  from Cons.prems have "isl (read_submission (axios pf sent ?c))" by auto
  then obtain error where e: "read_submission (axios pf sent ?c) = Inl error"
    by (cases "read_submission (axios pf sent ?c)") auto
  have rest: "\<forall>i<length rest. isl (map read_submission
                 (answers (axios pf) (sent @ [?c]) (map (submit_call cfg body) rest)) ! i)"
  proof (intro allI impI)
    fix i assume "i < length rest"
    then have "Suc i < length (endpoint # rest)" by simp
    with Cons.prems show "isl (map read_submission
                 (answers (axios pf) (sent @ [?c]) (map (submit_call cfg body) rest)) ! i)"
      by fastforce
  qed
  from Cons.IH [OF rest, of "Some error"] e show ?case
    by (cases rest) (simp_all add: length_answers)
qed


lemma promise_all_probes:
  "promise_all (map probe settled) = Inr (map (\<lambda>a. \<not> isl a) settled)"
  by (induction settled) (auto simp: probe_def split: sum.splits)


lemma answers_nth:
  "answers ax sent calls = map (\<lambda>i. ax (sent @ take i calls) (calls ! i)) [0..<length calls]"
proof (induction calls arbitrary: sent)
  case Nil
  then show ?case by simp
next
  case (Cons call calls)
  have "[0..<length (call # calls)] = 0 # map Suc [0..<length calls]"
    by (simp add: upt_conv_Cons map_Suc_upt del: upt_Suc)
  then show ?case by (simp add: Cons.IH comp_def del: upt_Suc)
qed

lemma read_submission_unusable:
  "unusable answer \<Longrightarrow> read_submission answer = Inl (failure_of answer)"
  by (auto simp: unusable_def failure_of_def read_submission_def get_prop_def quoted_def
        TypeError_def split: sum.splits)




text \<open>
  Claim C1, as amended. When the answer of every configured endpoint is unusable (the HTTP
  call is rejected, or the body of the response is \<^verbatim>\<open>null\<close> or \<^verbatim>\<open>undefined\<close>), the call has
  made exactly one POST per endpoint, in list order, and throws one \<^verbatim>\<open>L3Error\<close> whose
  message is \<^verbatim>\<open>All guardians unreachable: \<close> followed by the message of the error met at
  the last endpoint (\<^verbatim>\<open>unknown error\<close> when that message is empty or no endpoint is
  configured). The error is made from the last error alone.
\<close>

theorem submitAttestation_all_fail:
  "let calls = map (\<lambda>endpoint.
                 Post (endpoint @ ''/attestation/submit'')
                   \<lparr>attestation_doc = base64 pf (attestationDoc bundle),
                    certificate_chain = map (base64 pf) (certificateChain bundle),
                    enclave_public_key = enclavePublicKey bundle,
                    tapp_id = tappId bundle\<rparr>
                   (timeoutMs cfg)) (endpoints cfg);
       last_failure = failure_of (axios pf (sent @ butlast calls) (last calls))
   in (\<forall>i<length (endpoints cfg). unusable (axios pf (sent @ take i calls) (calls ! i))) \<longrightarrow>
      submitAttestation pf cfg bundle sent
        = (Inl (JsError ''L3Error''
             (''All guardians unreachable: '' @
                (if endpoints cfg = [] \<or> message last_failure = [] then ''unknown error''
                 else message last_failure))),
           sent @ calls)"
proof -
  define body where "body = submit_payload pf bundle"
  define calls where "calls = map (submit_call cfg body) (endpoints cfg)"
  have calls_eq: "map (\<lambda>endpoint.
                 Post (endpoint @ ''/attestation/submit'')
                   \<lparr>attestation_doc = base64 pf (attestationDoc bundle),
                    certificate_chain = map (base64 pf) (certificateChain bundle),
                    enclave_public_key = enclavePublicKey bundle,
                    tapp_id = tappId bundle\<rparr>
                   (timeoutMs cfg)) (endpoints cfg) = calls"
    unfolding calls_def body_def submit_call_def submit_payload_def by simp
  have len: "length calls = length (endpoints cfg)" by (simp add: calls_def)
  have outcome: "map read_submission (answers (axios pf) sent calls) ! i
                   = read_submission (axios pf (sent @ take i calls) (calls ! i))"
    if "i < length calls" for i
    using that by (simp add: answers_nth)
  have main: "submitAttestation pf cfg bundle sent
        = (Inl (JsError ''L3Error''
             (''All guardians unreachable: '' @
                (if endpoints cfg = [] \<or>
                    message (failure_of (axios pf (sent @ butlast calls) (last calls))) = []
                 then ''unknown error''
                 else message (failure_of (axios pf (sent @ butlast calls) (last calls)))))),
           sent @ calls)"
    if all: "\<forall>i<length (endpoints cfg). unusable (axios pf (sent @ take i calls) (calls ! i))"
  proof -
    have fails: "\<forall>i<length (endpoints cfg). isl (map read_submission
       (answers (axios pf) sent (map (submit_call cfg body) (endpoints cfg))) ! i)"
    proof (intro allI impI)
      fix i assume i: "i < length (endpoints cfg)"
      then have "i < length calls" using len by simp
      from outcome [OF this] all i read_submission_unusable
      show "isl (map read_submission
         (answers (axios pf) sent (map (submit_call cfg body) (endpoints cfg))) ! i)"
        by (simp add: calls_def)
    qed
    note run = submit_loop_all_fail [OF fails, of None]
    show ?thesis
    proof (cases "endpoints cfg = []")
      case True
      then show ?thesis
        using run by (simp add: submitAttestation_def body_def calls_def last_message_def L3Error_def)
    next
      case False
      then have ne: "calls \<noteq> []" by (simp add: calls_def)
      let ?n = "length calls - 1"
      have n: "?n < length calls" using ne by simp
      have pos: "take ?n calls = butlast calls" "calls ! ?n = last calls"
        using ne by (simp_all add: butlast_conv_take last_conv_nth)
      define outcomes where "outcomes = map read_submission (answers (axios pf) sent calls)"
      have olen: "length outcomes = length calls"
        by (simp add: outcomes_def length_answers)
      then have "outcomes \<noteq> []" using ne by auto
      then have "last outcomes = outcomes ! (length outcomes - 1)"
        by (rule last_conv_nth)
      then have "last (map read_submission (answers (axios pf) sent calls))
              = map read_submission (answers (axios pf) sent calls) ! ?n"
        unfolding olen unfolding outcomes_def .
      also have "\<dots> = read_submission (axios pf (sent @ take ?n calls) (calls ! ?n))"
        by (rule outcome [OF n])
      also have "\<dots> = read_submission (axios pf (sent @ butlast calls) (last calls))"
        by (simp only: pos)
      also have "\<dots> = Inl (failure_of (axios pf (sent @ butlast calls) (last calls)))"
      proof (rule read_submission_unusable)
        have "unusable (axios pf (sent @ take ?n calls) (calls ! ?n))"
          using all n len by simp
        then show "unusable (axios pf (sent @ butlast calls) (last calls))"
          by (simp only: pos)
      qed
      finally have lst: "last (map read_submission (answers (axios pf) sent calls))
          = Inl (failure_of (axios pf (sent @ butlast calls) (last calls)))" .
      show ?thesis
        using run False lst
        by (simp add: submitAttestation_def body_def calls_def last_message_def L3Error_def)
    qed
  qed
  show ?thesis
    unfolding Let_def calls_eq using main by blast
qed

theorem submitAttestation_all_fail_witness:
  "submitAttestation unreachable_platform (guardians [''http://g1'', ''http://g2'', ''http://g3'']) bundle0 []
     = (Inl (JsError ''L3Error'' ''All guardians unreachable: Network Error''),
        [Post ''http://g1/attestation/submit'' (submit_payload unreachable_platform bundle0) 5000,
         Post ''http://g2/attestation/submit'' (submit_payload unreachable_platform bundle0) 5000,
         Post ''http://g3/attestation/submit'' (submit_payload unreachable_platform bundle0) 5000])"
proof -
  let ?cfg = "guardians [''http://g1'', ''http://g2'', ''http://g3'']"
  let ?calls = "map (\<lambda>endpoint.
                 Post (endpoint @ ''/attestation/submit'')
                   \<lparr>attestation_doc = base64 unreachable_platform (attestationDoc bundle0),
                    certificate_chain = map (base64 unreachable_platform) (certificateChain bundle0),
                    enclave_public_key = enclavePublicKey bundle0,
                    tapp_id = tappId bundle0\<rparr>
                   (timeoutMs ?cfg)) (endpoints ?cfg)"
  have h: "\<forall>i<length (endpoints ?cfg).
             unusable (axios unreachable_platform ([] @ take i ?calls) (?calls ! i))"
    by (simp add: unreachable_platform_def unusable_def)
  note t = submitAttestation_all_fail [of unreachable_platform bundle0 ?cfg "[]",
      unfolded Let_def, THEN mp, OF h]
  show ?thesis
    using t by (simp add: guardians_def failure_of_def AxiosError_def submit_payload_def
          unreachable_platform_def [THEN arg_cong, of axios])
qed

text \<open>
  Claim C1 as stated does not hold, in two ways. The error names no endpoint count: with
  three unreachable guardians and with one, the call throws the same error; its message is
  the fixed prefix and the last error's message, and holds no digit at all. And a response
  whose body cannot be parsed is no failure: when every guardian answers status 200 with
  text that is not JSON, the call stops at the first endpoint and returns a submission, all
  of whose fields are \<^verbatim>\<open>undefined\<close>.
\<close>

theorem submitAttestation_error_omits_count:
  "fst (submitAttestation unreachable_platform
          (guardians [''http://g1'', ''http://g2'', ''http://g3'']) bundle0 [])
     = Inl (JsError ''L3Error'' ''All guardians unreachable: Network Error'') \<and>
   fst (submitAttestation unreachable_platform (guardians [''http://g1'']) bundle0 [])
     = Inl (JsError ''L3Error'' ''All guardians unreachable: Network Error'') \<and>
   length (endpoints (guardians [''http://g1'', ''http://g2'', ''http://g3''])) = 3 \<and>
   length (endpoints (guardians [''http://g1''])) = 1 \<and>
   set (message (projl (fst (submitAttestation unreachable_platform
          (guardians [''http://g1'', ''http://g2'', ''http://g3'']) bundle0 []))))
     \<inter> set ''0123456789'' = {} \<and>
   submitAttestation garbage_platform
       (guardians [''http://g1'', ''http://g2'', ''http://g3'']) bundle0 []
     = (Inr \<lparr>attestationId = JUndefined, submissionTime = Date JUndefined,
             submission_status = JUndefined\<rparr>,
        [Post ''http://g1/attestation/submit'' (submit_payload garbage_platform bundle0) 5000])"
  by (simp add: submitAttestation_def guardians_def unreachable_platform_def read_submission_def
        last_message_def L3Error_def AxiosError_def garbage_platform_def get_prop_def
        submit_call_def)

text \<open>
  Claim C7. \<^verbatim>\<open>checkGuardiansHealth\<close> never throws: it returns a result whatever the
  endpoints answer. It issues exactly one GET of \<^verbatim>\<open>${endpoint}/health\<close> with timeout 5000
  per configured endpoint, the reachable count is the number of endpoints whose probe was
  answered and not rejected, whatever the other probes met, and the total is the number of
  configured endpoints.
\<close>

theorem checkGuardiansHealth_counts:
  "let calls = map (\<lambda>endpoint. Get (endpoint @ ''/health'') 5000) (endpoints cfg)
   in checkGuardiansHealth pf cfg sent =
        (Inr \<lparr>reachable = length (filter (\<lambda>i. \<not> isl (axios pf (sent @ take i calls) (calls ! i)))
                             [0..<length (endpoints cfg)]),
             total = length (endpoints cfg)\<rparr>,
         sent @ calls)"
proof -
  have calls: "map health_call (endpoints cfg)
                 = map (\<lambda>endpoint. Get (endpoint @ ''/health'') 5000) (endpoints cfg)"
    by (simp add: health_call_def)
  have run: "checkGuardiansHealth pf cfg sent =
     (Inr \<lparr>reachable = length (filter (\<lambda>a. \<not> isl a)
               (answers (axios pf) sent (map health_call (endpoints cfg)))),
          total = length (endpoints cfg)\<rparr>,
      sent @ map health_call (endpoints cfg))"
    by (simp add: checkGuardiansHealth_def Let_def promise_all_probes filter_map comp_def)
  show ?thesis
    unfolding Let_def run calls by (simp add: answers_nth filter_map comp_def)
qed


theorem checkGuardiansHealth_counts_witness:
  "checkGuardiansHealth failover_platform (guardians [''http://g1'', ''http://g2'', ''http://g3'']) []
     = (Inr \<lparr>reachable = 2, total = 3\<rparr>,
        [Get ''http://g1/health'' 5000, Get ''http://g2/health'' 5000, Get ''http://g3/health'' 5000])"
  unfolding checkGuardiansHealth_counts [unfolded Let_def]
  by (simp add: guardians_def failover_platform_def upt_conv_Cons)


section \<open>Properties of the socket clients\<close>

lemma be32_arith:
  fixes n :: nat
  assumes "n < 2 ^ 32"
  shows "(n div 2 ^ 24) mod 256 * 2 ^ 24 + (n div 2 ^ 16) mod 256 * 2 ^ 16
           + (n div 2 ^ 8) mod 256 * 2 ^ 8 + n mod 256 = n"
proof -
  define x where "x = n div 256"
  define y where "y = x div 256"
  define z where "z = y div 256"
  define r0 where "r0 = n mod 256"
  define r1 where "r1 = x mod 256"
  define r2 where "r2 = y mod 256"
  have e1: "n = x * 256 + r0" unfolding x_def r0_def by simp
  have e2: "x = y * 256 + r1" unfolding y_def r1_def by simp
  have e3: "y = z * 256 + r2" unfolding z_def r2_def by simp
  have d8: "n div 2 ^ 8 = x" unfolding x_def by simp
  have d16: "n div 2 ^ 16 = y" unfolding y_def x_def by (simp add: div_mult2_eq [symmetric])
  have d24: "n div 2 ^ 24 = z" unfolding z_def y_def x_def by (simp add: div_mult2_eq [symmetric])
  have n: "n < 4294967296" using assms by simp
  have "z < 256" using n e1 e2 e3 by linarith
  then have zm: "z mod 256 = z" by simp
  have "z * 16777216 + r2 * 65536 + r1 * 256 + r0 = n"
    using e1 e2 e3 by linarith
  then have "z * 2 ^ 24 + r2 * 2 ^ 16 + r1 * 2 ^ 8 + r0 = n" by simp
  then show ?thesis unfolding d8 d16 d24 zm r0_def r1_def r2_def .
qed


lemma length_uint32be [simp]: "length (uint32be n) = 4"
  by (simp add: uint32be_def)

lemma readUInt32BE_uint32be:
  "n < 2 ^ 32 \<Longrightarrow> readUInt32BE (uint32be n @ xs) = n"
proof -
  assume n: "n < 2 ^ 32"
  have u: "unat (of_nat k :: byte) = k mod 256" for k
    by (simp add: unat_of_nat)
  have "readUInt32BE (uint32be n @ xs)
          = (n div 2 ^ 24) mod 256 * 2 ^ 24 + (n div 2 ^ 16) mod 256 * 2 ^ 16
              + (n div 2 ^ 8) mod 256 * 2 ^ 8 + n mod 256"
    unfolding readUInt32BE_def uint32be_def by (simp only: u append_Cons nth_Cons_0 nth_Cons_Suc
        One_nat_def numeral_2_eq_2 numeral_3_eq_3)
  then show ?thesis using be32_arith [OF n] by (simp only:)
qed

lemma readUInt32BE_prefix:
  "4 \<le> length b \<Longrightarrow> readUInt32BE (b @ rest) = readUInt32BE b"
proof -
  assume "4 \<le> length b"
  then have "(b @ rest) ! 0 = b ! 0" "(b @ rest) ! 1 = b ! 1" "(b @ rest) ! 2 = b ! 2"
    "(b @ rest) ! 3 = b ! 3"
    by (auto simp: nth_append)
  then show ?thesis by (simp only: readUInt32BE_def)
qed

lemma length_frame [simp]: "length (frame body) = 4 + length body"
  by (simp add: frame_def)


lemma handle_loop_incomplete:
  "incomplete (dataBuffer this) \<Longrightarrow> handle_loop codec this = (this, [])"
  by (subst handle_loop.simps) (auto simp: incomplete_def Let_def)



lemma handle_loop_frame:
  assumes buf: "dataBuffer this = frame body @ rest" and len: "length body < 2 ^ 32"
  shows "handle_loop codec this =
           emit_vs (deliver codec (pendingResponse this) body)
             (handle_loop codec (this\<lparr>dataBuffer := rest, pendingResponse := None\<rparr>))"
proof -
  have rd: "readUInt32BE (dataBuffer this) = length body"
    unfolding buf frame_def append_assoc by (rule readUInt32BE_uint32be [OF len])
  have tk: "take (length body) (drop 4 (dataBuffer this)) = body"
    unfolding buf frame_def by simp
  have dr: "drop (4 + length body) (dataBuffer this) = rest"
    unfolding buf frame_def by simp
  have ge: "4 \<le> length (dataBuffer this)" "4 + length body \<le> length (dataBuffer this)"
    unfolding buf by simp_all
  have unfold: "handle_loop codec this =
      (case parse codec body of
         Inr response \<Rightarrow>
           (case pendingResponse (this\<lparr>dataBuffer := rest\<rparr>) of
              Some p \<Rightarrow>
                emit_vs [Parsed body, Resolved p response]
                  (handle_loop codec (this\<lparr>dataBuffer := rest, pendingResponse := None\<rparr>))
            | None \<Rightarrow> emit_vs [Parsed body] (handle_loop codec (this\<lparr>dataBuffer := rest\<rparr>)))
       | Inl error \<Rightarrow>
           (case pendingResponse (this\<lparr>dataBuffer := rest\<rparr>) of
              Some p \<Rightarrow>
                emit_vs [Parsed body,
                         Rejected p (VsocketError (''JSON parse failed: '' @ message error))]
                  (handle_loop codec (this\<lparr>dataBuffer := rest, pendingResponse := None\<rparr>))
            | None \<Rightarrow> emit_vs [Parsed body] (handle_loop codec (this\<lparr>dataBuffer := rest\<rparr>))))"
    by (subst handle_loop.simps) (simp only: ge rd tk dr if_True Let_def)
  show ?thesis
  proof (cases "pendingResponse this")
    case None
    then have same: "this\<lparr>dataBuffer := rest, pendingResponse := None\<rparr> = this\<lparr>dataBuffer := rest\<rparr>"
      by simp
    show ?thesis
      unfolding unfold same using None by (cases "parse codec body") (simp_all add: deliver_def)
  next
    case (Some p)
    show ?thesis
      unfolding unfold using Some by (cases "parse codec body") (simp_all add: deliver_def)
  qed
qed

lemma deliver_none: "deliver codec None body = [Parsed body]"
  by (simp add: deliver_def)

lemma handle_loop_frames:
  "dataBuffer this = concat (map frame bodies) @ rest \<Longrightarrow>
   \<forall>b\<in>set bodies. length b < 2 ^ 32 \<Longrightarrow> incomplete rest \<Longrightarrow>
   handle_loop codec this =
     (this\<lparr>dataBuffer := rest,
           pendingResponse := (if bodies = [] then pendingResponse this else None)\<rparr>,
      (case bodies of [] \<Rightarrow> [] | b # bs \<Rightarrow> deliver codec (pendingResponse this) b @ map Parsed bs))"
proof (induction bodies arbitrary: this)
  case Nil
  then show ?case by (simp add: handle_loop_incomplete)
next
  case (Cons b bs)
  let ?next = "this\<lparr>dataBuffer := concat (map frame bs) @ rest, pendingResponse := None\<rparr>"
  have buf: "dataBuffer this = frame b @ (concat (map frame bs) @ rest)"
    using Cons.prems(1) by simp
  have len: "length b < 2 ^ 32" using Cons.prems(2) by simp
  have step: "handle_loop codec this
                = emit_vs (deliver codec (pendingResponse this) b) (handle_loop codec ?next)"
    by (rule handle_loop_frame [OF buf len])
  have "handle_loop codec ?next =
     (?next\<lparr>dataBuffer := rest,
           pendingResponse := (if bs = [] then pendingResponse ?next else None)\<rparr>,
      (case bs of [] \<Rightarrow> [] | b # bs' \<Rightarrow> deliver codec (pendingResponse ?next) b @ map Parsed bs'))"
    using Cons.prems(2,3) by (intro Cons.IH) simp_all
  then have "handle_loop codec ?next
               = (this\<lparr>dataBuffer := rest, pendingResponse := None\<rparr>, map Parsed bs)"
    by (cases bs) (simp_all add: deliver_none)
  then show ?case unfolding step by simp
qed

lemma frame_complete: "length body < 2 ^ 32 \<Longrightarrow> \<not> incomplete (frame body)"
  using readUInt32BE_uint32be [of "length body" body]
  by (simp add: incomplete_def frame_def)

lemma proper_prefix_incomplete:
  assumes len: "length body < 2 ^ 32" and split: "b @ missing = frame body" and ne: "missing \<noteq> []"
  shows "incomplete b"
proof (cases "length b < 4")
  case True
  then show ?thesis by (simp add: incomplete_def)
next
  case False
  then have four: "4 \<le> length b" by simp
  have "take 4 (b @ missing) = uint32be (length body)"
    unfolding split frame_def by simp
  then have hd4: "take 4 b = uint32be (length body)" using four by simp
  have "b = take 4 b @ drop 4 b" by simp
  then have "readUInt32BE b = readUInt32BE (uint32be (length body) @ drop 4 b)"
    unfolding hd4 by simp
  then have rd: "readUInt32BE b = length body"
    by (simp only: readUInt32BE_uint32be [OF len])
  have "length b + length missing = 4 + length body"
    using arg_cong [OF split, of length] by simp
  moreover have "0 < length missing" using ne by simp
  ultimately have "length b < 4 + length body" by linarith
  then show ?thesis unfolding incomplete_def rd by simp
qed

lemma handleData_incomplete:
  "incomplete (dataBuffer this @ chunk) \<Longrightarrow>
   handleData codec this chunk = (this\<lparr>dataBuffer := dataBuffer this @ chunk\<rparr>, [])"
  by (simp add: handleData_def handle_loop_incomplete)

lemma feed_partial:
  "length body < 2 ^ 32 \<Longrightarrow> dataBuffer this @ concat chunks @ missing = frame body \<Longrightarrow>
   missing \<noteq> [] \<Longrightarrow>
   feed codec this chunks = (this\<lparr>dataBuffer := dataBuffer this @ concat chunks\<rparr>, [])"
proof (induction chunks arbitrary: this)
  case Nil
  then show ?case by simp
next
  case (Cons chunk chunks)
  have "(dataBuffer this @ chunk) @ (concat chunks @ missing) = frame body"
    using Cons.prems(2) by simp
  moreover have "concat chunks @ missing \<noteq> []" using Cons.prems(3) by simp
  ultimately have "incomplete (dataBuffer this @ chunk)"
    by (rule proper_prefix_incomplete [OF Cons.prems(1)])
  then have step: "handleData codec this chunk = (this\<lparr>dataBuffer := dataBuffer this @ chunk\<rparr>, [])"
    by (rule handleData_incomplete)
  have "feed codec (this\<lparr>dataBuffer := dataBuffer this @ chunk\<rparr>) chunks
          = (this\<lparr>dataBuffer := dataBuffer this @ chunk\<rparr>
               \<lparr>dataBuffer := dataBuffer (this\<lparr>dataBuffer := dataBuffer this @ chunk\<rparr>) @ concat chunks\<rparr>, [])"
    using Cons.prems by (intro Cons.IH) simp_all
  then show ?case using step by simp
qed

lemma feed_nothing:
  "dataBuffer this = [] \<Longrightarrow> \<forall>c\<in>set chunks. c = [] \<Longrightarrow> feed codec this chunks = (this, [])"
proof (induction chunks)
  case Nil
  then show ?case by simp
next
  case (Cons chunk chunks)
  then have "incomplete (dataBuffer this @ chunk)" by (simp add: incomplete_def)
  then have "handleData codec this chunk = (this\<lparr>dataBuffer := dataBuffer this @ chunk\<rparr>, [])"
    by (rule handleData_incomplete)
  moreover have "this\<lparr>dataBuffer := dataBuffer this @ chunk\<rparr> = this"
    using Cons.prems by (cases this) simp
  ultimately have "handleData codec this chunk = (this, [])" by (simp only:)
  then show ?case using Cons by simp
qed

lemma feed_frame:
  "length body < 2 ^ 32 \<Longrightarrow> dataBuffer this @ concat chunks = frame body \<Longrightarrow>
   incomplete (dataBuffer this) \<Longrightarrow>
   feed codec this chunks
     = (this\<lparr>dataBuffer := [], pendingResponse := None\<rparr>, deliver codec (pendingResponse this) body)"
proof (induction chunks arbitrary: this)
  case Nil
  then show ?case using frame_complete [of body] by simp
next
  case (Cons chunk chunks)
  let ?this1 = "this\<lparr>dataBuffer := dataBuffer this @ chunk\<rparr>"
  show ?case
  proof (cases "concat chunks = []")
    case True
    then have buf: "dataBuffer ?this1 = concat (map frame [body]) @ []"
      using Cons.prems(2) by (simp del: concat_eq_Nil_conv)
    have "handle_loop codec ?this1 =
       (?this1\<lparr>dataBuffer := [],
           pendingResponse := (if [body] = [] then pendingResponse ?this1 else None)\<rparr>,
        (case [body] of [] \<Rightarrow> [] | b # bs \<Rightarrow> deliver codec (pendingResponse ?this1) b @ map Parsed bs))"
      using Cons.prems(1) by (intro handle_loop_frames [OF buf]) (simp_all add: incomplete_def)
    then have step: "handleData codec this chunk
        = (this\<lparr>dataBuffer := [], pendingResponse := None\<rparr>, deliver codec (pendingResponse this) body)"
      by (simp add: handleData_def)
    have "feed codec (this\<lparr>dataBuffer := [], pendingResponse := None\<rparr>) chunks
            = (this\<lparr>dataBuffer := [], pendingResponse := None\<rparr>, [])"
      using True by (intro feed_nothing) simp_all
    then show ?thesis using step by simp
  next
    case False
    have "(dataBuffer this @ chunk) @ concat chunks = frame body" using Cons.prems(2) by simp
    then have inc: "incomplete (dataBuffer this @ chunk)"
      using False by (rule proper_prefix_incomplete [OF Cons.prems(1)])
    then have step: "handleData codec this chunk = (?this1, [])"
      by (rule handleData_incomplete)
    have "feed codec ?this1 chunks
            = (?this1\<lparr>dataBuffer := [], pendingResponse := None\<rparr>,
               deliver codec (pendingResponse ?this1) body)"
      using Cons.prems inc by (intro Cons.IH) simp_all
    then show ?thesis using step by simp
  qed
qed

lemma garbled_handle:
  "handleData ping_codec (open_client\<lparr>pendingResponse := Some 0\<rparr>) [0, 0, 0, 1, 0x78]
     = (open_client, [Parsed [0x78], Rejected 0 (VsocketError ''JSON parse failed: Unexpected token'')])"
  by (simp add: handleData_def handle_loop.simps open_client_def readUInt32BE_def Let_def
        ping_codec_def ping_text_def)

lemma ping_frame:
  "encode_frame ping_codec ping = Inr [0, 0, 0, 4, 0x70, 0x69, 0x6E, 0x67]"
  by (simp add: encode_frame_def writeUInt32BE_def uint32be_def ping_codec_def ping_text_def)

lemma open_client_fields:
  "socket open_client = Some \<lparr>sock_id = 0, ended = False, destroyed = False\<rparr>"
  "connected open_client" "config open_client = test_config"
  "open_client\<lparr>pendingResponse := None\<rparr> = open_client"
  by (simp_all add: open_client_def)

lemma garbled_try:
  "try_block ping_codec ping (open_client, garbled_world)
     = (Some (Inl (VsocketError ''JSON parse failed: Unexpected token'')), open_client,
        garbled_world\<lparr>promises_made := Suc 0, inbound := [], wire := [[0, 0, 0, 4, 0x70, 0x69, 0x6E, 0x67]]\<rparr>)"
  by (simp add: try_block_def exchange_def writeMessage_def ping_frame readMessage_def
        await_response_def on_event_def garbled_handle open_client_fields garbled_world_def)

lemma garbled_reconnect:
  "connect (open_client\<lparr>connected := False, socket := None\<rparr>,
            garbled_world\<lparr>promises_made := Suc 0, inbound := [], wire := [[0, 0, 0, 4, 0x70, 0x69, 0x6E, 0x67]]\<rparr>)
     = Some (Inr (Some ()),
        open_client\<lparr>socket := Some \<lparr>sock_id = Suc 0, ended = False, destroyed = False\<rparr>\<rparr>,
        garbled_world\<lparr>sockets_made := 2, promises_made := Suc 0, connecting := [], inbound := [],
                        wire := [[0, 0, 0, 4, 0x70, 0x69, 0x6E, 0x67]]\<rparr>)"
  by (simp add: connect_def retryWithBackoff_def retry_loop.simps connect_attempt_def Let_def
        on_connect_def open_client_def test_config_def garbled_world_def)

text \<open>
  Claim C2 fails on \<^verbatim>\<open>VsocketClient\<close>. A connected client sends a request and the
  enclave answers with a complete frame whose payload, the byte \<^verbatim>\<open>x\<close>, is not JSON. The
  handler rejects the pending promise with the parse error, the \<^verbatim>\<open>catch\<close> block of
  \<^verbatim>\<open>sendRequest\<close> takes it like a failed write, and the client opens a second socket and
  writes the same request a second time; with no further answer the call stays pending
  instead of failing with the parse error.
\<close>

theorem sendRequest_resends_after_parse_failure:
  "sendRequest ping_codec ping (open_client, garbled_world)
     = Some (Pending,
        open_client\<lparr>socket := Some \<lparr>sock_id = Suc 0, ended = False, destroyed = False\<rparr>,
                      pendingResponse := Some (Suc 0)\<rparr>,
        garbled_world\<lparr>sockets_made := 2, promises_made := 2, connecting := [], inbound := [],
                        wire := [[0, 0, 0, 4, 0x70, 0x69, 0x6E, 0x67],
                                 [0, 0, 0, 4, 0x70, 0x69, 0x6E, 0x67]]\<rparr>)"
proof -
  let ?w1 = "garbled_world\<lparr>promises_made := Suc 0, inbound := [],
                wire := [[0, 0, 0, 4, 0x70, 0x69, 0x6E, 0x67]]\<rparr>"
  let ?this3 = "open_client\<lparr>socket := Some \<lparr>sock_id = Suc 0, ended = False, destroyed = False\<rparr>\<rparr>"
  let ?w3 = "garbled_world\<lparr>sockets_made := 2, promises_made := Suc 0, connecting := [], inbound := [],
                wire := [[0, 0, 0, 4, 0x70, 0x69, 0x6E, 0x67]]\<rparr>"
  have caught: "sendRequest ping_codec ping (open_client, garbled_world)
                  = catch_block ping_codec ping (open_client, ?w1)"
    by (simp add: sendRequest_def open_client_fields garbled_try)
  have again: "catch_block ping_codec ping (open_client, ?w1)
      = (case exchange ping_codec ping (?this3, ?w3) of
           (None, s4) \<Rightarrow> Some (Pending, s4)
         | (Some (Inl error), s4) \<Rightarrow> Some (Throws (ThrownError error), s4)
         | (Some (Inr response), s4) \<Rightarrow> Some (Returns response, s4))"
    by (simp add: catch_block_def Let_def garbled_reconnect)
  have resent: "exchange ping_codec ping (?this3, ?w3)
      = (None, ?this3\<lparr>pendingResponse := Some (Suc 0)\<rparr>,
         ?w3\<lparr>promises_made := 2,
               wire := [[0, 0, 0, 4, 0x70, 0x69, 0x6E, 0x67], [0, 0, 0, 4, 0x70, 0x69, 0x6E, 0x67]]\<rparr>)"
    by (simp add: exchange_def writeMessage_def ping_frame readMessage_def await_response_def
          garbled_world_def)
  show ?thesis unfolding caught again resent by (simp add: garbled_world_def)
qed

theorem sendRequest_resends_after_parse_failure_witness:
  "map_option fst (sendRequest ping_codec ping (open_client, garbled_world)) = Some Pending \<and>
   map_option (\<lambda>(r, this, w). wire w) (sendRequest ping_codec ping (open_client, garbled_world))
     = Some [[0, 0, 0, 4, 0x70, 0x69, 0x6E, 0x67], [0, 0, 0, 4, 0x70, 0x69, 0x6E, 0x67]] \<and>
   map_option (\<lambda>(r, this, w). sockets_made w) (sendRequest ping_codec ping (open_client, garbled_world))
     = Some 2"
  unfolding sendRequest_resends_after_parse_failure by simp


lemma encode_frame_Inr:
  assumes "encode_frame codec r = Inr bytes" and "stringify codec r = Inr body"
  shows "length body < 2 ^ 32" and "bytes = frame body"
  using assms
  by (auto simp: encode_frame_def writeUInt32BE_def frame_def split: if_splits)

lemma deliver_resolved:
  "parse codec body = Inr v \<Longrightarrow> deliver codec (Some p) body = [Parsed body, Resolved p v]"
  by (simp add: deliver_def)

lemma ping_codec_fields:
  "stringify ping_codec ping = Inr ping_text"
  "parse ping_codec ping_text = Inr (request_value ping)"
  by (simp_all add: ping_codec_def)

lemma length_nan_text: "length nan_text = 57"
  by (simp add: nan_text_def)

text \<open>
  Claim C3, as amended. Take a request whose frame \<^verbatim>\<open>writeMessage\<close> can build (its
  JSON text is shorter than \<open>2 ^ 32\<close> bytes). The frame is the length of the text as four
  bytes, most significant first, followed by the text. However the bytes of the frame are
  cut into chunks, a client with an empty buffer that awaits a response hands the
  deserializer exactly the text of the request, once, and settles the pending promise with
  what the deserializer makes of it: for a request whose JSON text is read back as the
  request itself, with a value equal to the request. As long as the chunks delivered so far
  hold fewer bytes than the frame, the handler has parsed nothing.
\<close>

theorem framing_round_trip:
  assumes json: "stringify codec r = Inr body"
    and enc: "encode_frame codec r = Inr bytes"
    and chunks: "concat chunks = bytes"
    and empty: "dataBuffer this = []"
    and waiting: "pendingResponse this = Some p"
  shows "length bytes = 4 + length body \<and>
         unat (bytes ! 0) * 2 ^ 24 + unat (bytes ! 1) * 2 ^ 16 + unat (bytes ! 2) * 2 ^ 8
           + unat (bytes ! 3) = length body \<and>
         drop 4 bytes = body \<and>
         feed codec this chunks
           = (this\<lparr>dataBuffer := [], pendingResponse := None\<rparr>,
              [Parsed body,
               case parse codec body of
                 Inr response \<Rightarrow> Resolved p response
               | Inl error \<Rightarrow>
                   Rejected p (JsError ''VsocketError'' (''JSON parse failed: '' @ message error))]) \<and>
         (parse codec body = Inr (request_value r) \<longrightarrow>
            feed codec this chunks
              = (this\<lparr>dataBuffer := [], pendingResponse := None\<rparr>,
                 [Parsed body, Resolved p (request_value r)])) \<and>
         (\<forall>n. length (concat (take n chunks)) < length bytes \<longrightarrow>
              snd (feed codec this (take n chunks)) = [])"
proof -
  note len = encode_frame_Inr(1) [OF enc json] and fr = encode_frame_Inr(2) [OF enc json]
  have bytes: "bytes = uint32be (length body) @ body"
    using fr by (simp add: frame_def)
  have l: "length bytes = 4 + length body" using bytes by simp
  have "readUInt32BE (uint32be (length body) @ body) = length body"
    using readUInt32BE_prefix [of "uint32be (length body)" body] readUInt32BE_uint32be [OF len]
    by simp
  then have be: "unat (bytes ! 0) * 2 ^ 24 + unat (bytes ! 1) * 2 ^ 16 + unat (bytes ! 2) * 2 ^ 8
           + unat (bytes ! 3) = length body"
    unfolding bytes readUInt32BE_def .
  have d: "drop 4 bytes = body" using bytes by simp
  have run: "feed codec this chunks
          = (this\<lparr>dataBuffer := [], pendingResponse := None\<rparr>,
             deliver codec (pendingResponse this) body)"
    using chunks fr empty by (intro feed_frame [OF len]) (simp_all add: incomplete_def)
  have f: "feed codec this chunks
           = (this\<lparr>dataBuffer := [], pendingResponse := None\<rparr>,
              [Parsed body,
               case parse codec body of
                 Inr response \<Rightarrow> Resolved p response
               | Inl error \<Rightarrow>
                   Rejected p (JsError ''VsocketError'' (''JSON parse failed: '' @ message error))])"
    unfolding run waiting by (simp add: deliver_def VsocketError_def split: sum.splits)
  have g: "parse codec body = Inr (request_value r) \<longrightarrow>
            feed codec this chunks
              = (this\<lparr>dataBuffer := [], pendingResponse := None\<rparr>,
                 [Parsed body, Resolved p (request_value r)])"
    unfolding f by simp
  have h: "\<forall>n. length (concat (take n chunks)) < length bytes \<longrightarrow>
              snd (feed codec this (take n chunks)) = []"
  proof (intro allI impI)
    fix n
    assume short: "length (concat (take n chunks)) < length bytes"
    have split: "concat (take n chunks) @ concat (drop n chunks) = bytes"
      using chunks by (metis append_take_drop_id concat_append)
    then have "length (concat (take n chunks)) + length (concat (drop n chunks)) = length bytes"
      by (metis length_append)
    with short have "0 < length (concat (drop n chunks))" by linarith
    then have missing: "concat (drop n chunks) \<noteq> []" by (metis length_greater_0_conv)
    have whole: "dataBuffer this @ concat (take n chunks) @ concat (drop n chunks) = frame body"
      using split fr empty by simp
    have "feed codec this (take n chunks)
            = (this\<lparr>dataBuffer := dataBuffer this @ concat (take n chunks)\<rparr>, [])"
      by (rule feed_partial [OF len whole missing])
    then show "snd (feed codec this (take n chunks)) = []" by simp
  qed
  show ?thesis by (intro conjI l be d f g h)
qed

theorem framing_round_trip_witness:
  "feed ping_codec (open_client\<lparr>pendingResponse := Some 0\<rparr>)
      [[0], [0], [0], [4], [0x70], [0x69], [0x6E], [0x67]]
     = (open_client\<lparr>pendingResponse := Some 0\<rparr>\<lparr>dataBuffer := [], pendingResponse := None\<rparr>,
        [Parsed ping_text, Resolved 0 (request_value ping)]) \<and>
   snd (feed ping_codec (open_client\<lparr>pendingResponse := Some 0\<rparr>)
          (take 7 [[0], [0], [0], [4], [0x70], [0x69], [0x6E], [0x67]])) = []"
proof -
  have chunks: "concat [[0], [0], [0], [4], [0x70], [0x69], [0x6E], [0x67]]
                  = [0, 0, 0, 4, 0x70, 0x69, 0x6E, 0x67 :: byte]"
    by simp
  have empty: "dataBuffer (open_client\<lparr>pendingResponse := Some 0\<rparr>) = []"
    and waiting: "pendingResponse (open_client\<lparr>pendingResponse := Some 0\<rparr>) = Some 0"
    by (simp_all add: open_client_def)
  have short: "length (concat (take 7 [[0], [0], [0], [4], [0x70], [0x69], [0x6E], [0x67 :: byte]]))
                 < length [0, 0, 0, 4, 0x70, 0x69, 0x6E, 0x67 :: byte]"
    by simp
  note t = framing_round_trip [OF ping_codec_fields(1) ping_frame chunks empty waiting]
  note rest = t [THEN conjunct2, THEN conjunct2, THEN conjunct2, THEN conjunct2]
  show ?thesis
    by (rule conjI [OF rest [THEN conjunct1, THEN mp, OF ping_codec_fields(2)]
          rest [THEN conjunct2, THEN spec, THEN mp, OF short]])
qed

text \<open>
  Claim C3 as stated does not hold for every request: a request whose timestamp is
  \<^verbatim>\<open>NaN\<close> is framed, and decoding the frame yields an object whose timestamp is
  \<^verbatim>\<open>null\<close>, which is not equal to the request.
\<close>

theorem framing_loses_nan:
  "encode_frame nan_codec nan_ping = Inr ([0, 0, 0, 57] @ nan_text) \<and>
   feed nan_codec (open_client\<lparr>pendingResponse := Some 0\<rparr>) [[0, 0, 0, 57] @ nan_text]
     = (open_client,
        [Parsed nan_text,
         Resolved 0 (JObject [(''id'', JString ''1''), (''method'', JString ''ping''),
                              (''params'', JNull), (''timestamp'', JNull)])]) \<and>
   request_value nan_ping
     = JObject [(''id'', JString ''1''), (''method'', JString ''ping''),
                (''params'', JNull), (''timestamp'', JNumber NaN)] \<and>
   JNumber NaN \<noteq> JNull"
proof -
  have fr: "frame nan_text = [0, 0, 0, 57] @ nan_text"
    by (simp add: frame_def uint32be_def length_nan_text)
  have enc: "encode_frame nan_codec nan_ping = Inr ([0, 0, 0, 57] @ nan_text)"
    by (simp add: encode_frame_def writeUInt32BE_def uint32be_def nan_codec_def length_nan_text)
  have len: "length nan_text < 2 ^ 32" by (simp add: length_nan_text)
  have "feed nan_codec (open_client\<lparr>pendingResponse := Some 0\<rparr>) [[0, 0, 0, 57] @ nan_text]
          = (open_client\<lparr>pendingResponse := Some 0\<rparr>\<lparr>dataBuffer := [], pendingResponse := None\<rparr>,
             deliver nan_codec (pendingResponse (open_client\<lparr>pendingResponse := Some 0\<rparr>)) nan_text)"
    by (rule feed_frame [OF len]) (simp_all add: fr open_client_def incomplete_def)
  then have run: "feed nan_codec (open_client\<lparr>pendingResponse := Some 0\<rparr>) [[0, 0, 0, 57] @ nan_text]
     = (open_client,
        [Parsed nan_text,
         Resolved 0 (JObject [(''id'', JString ''1''), (''method'', JString ''ping''),
                              (''params'', JNull), (''timestamp'', JNull)])])"
    by (simp add: deliver_def nan_codec_def open_client_def)
  have val: "request_value nan_ping
     = JObject [(''id'', JString ''1''), (''method'', JString ''ping''),
                (''params'', JNull), (''timestamp'', JNumber NaN)]"
    by (simp add: request_value_def nan_ping_def)
  show ?thesis using enc run val by simp
qed

text \<open>
  Claim C9. When the buffer and a new chunk together hold complete frames followed by an
  incomplete rest, \<^verbatim>\<open>handleData\<close> hands each frame's payload to the parser exactly once,
  in order, and leaves only the rest in the buffer. When no promise is pending, nothing is
  settled: the frames are parsed and dropped, and the next \<^verbatim>\<open>readMessage\<close> starts from
  the state in which only the rest is buffered, so no later call can receive them.
\<close>

theorem unsolicited_frames_discarded:
  assumes buf: "dataBuffer this @ chunk = concat (map frame bodies) @ rest"
    and lens: "\<forall>b\<in>set bodies. length b < 2 ^ 32"
    and rest: "incomplete rest"
  shows "fst (handleData codec this chunk)
           = this\<lparr>dataBuffer := rest,
                   pendingResponse := (if bodies = [] then pendingResponse this else None)\<rparr> \<and>
         parsed (snd (handleData codec this chunk)) = bodies \<and>
         (pendingResponse this = None \<longrightarrow>
            handleData codec this chunk = (this\<lparr>dataBuffer := rest\<rparr>, map Parsed bodies) \<and>
            (\<forall>p. settlement p (snd (handleData codec this chunk)) = None) \<and>
            (\<forall>w. readMessage (fst (handleData codec this chunk), w)
                   = readMessage (this\<lparr>dataBuffer := rest\<rparr>, w)))"
proof -
  let ?this1 = "this\<lparr>dataBuffer := dataBuffer this @ chunk\<rparr>"
  have "handle_loop codec ?this1 =
     (?this1\<lparr>dataBuffer := rest,
           pendingResponse := (if bodies = [] then pendingResponse ?this1 else None)\<rparr>,
      (case bodies of [] \<Rightarrow> [] | b # bs \<Rightarrow> deliver codec (pendingResponse ?this1) b @ map Parsed bs))"
    using buf lens rest by (intro handle_loop_frames) simp_all
  then have run: "handleData codec this chunk =
     (this\<lparr>dataBuffer := rest,
           pendingResponse := (if bodies = [] then pendingResponse this else None)\<rparr>,
      (case bodies of [] \<Rightarrow> [] | b # bs \<Rightarrow> deliver codec (pendingResponse this) b @ map Parsed bs))"
    by (cases bodies) (simp_all add: handleData_def)
  have parsed_map: "parsed (map Parsed bs) = bs" for bs
    by (induction bs) simp_all
  have no_settle: "settlement p (map Parsed bs) = None" for p bs
    by (induction bs) simp_all
  have parsed_deliver: "parsed (deliver codec pending b @ map Parsed bs) = b # bs" for pending b bs
    by (cases pending; cases "parse codec b") (simp_all add: deliver_def parsed_map)
  have quiet: "pendingResponse this = None \<Longrightarrow>
      handleData codec this chunk = (this\<lparr>dataBuffer := rest\<rparr>, map Parsed bodies)"
    unfolding run by (cases bodies) (simp_all add: deliver_none)
  show ?thesis
  proof (intro conjI impI allI)
    show "fst (handleData codec this chunk)
           = this\<lparr>dataBuffer := rest,
                   pendingResponse := (if bodies = [] then pendingResponse this else None)\<rparr>"
      unfolding run by simp
    show "parsed (snd (handleData codec this chunk)) = bodies"
      unfolding run by (cases bodies) (simp_all add: parsed_deliver)
    assume none: "pendingResponse this = None"
    show "handleData codec this chunk = (this\<lparr>dataBuffer := rest\<rparr>, map Parsed bodies)"
      by (rule quiet [OF none])
    show "settlement p (snd (handleData codec this chunk)) = None" for p
      unfolding quiet [OF none] by (simp add: no_settle)
    show "readMessage (fst (handleData codec this chunk), w)
            = readMessage (this\<lparr>dataBuffer := rest\<rparr>, w)" for w
      unfolding quiet [OF none] by simp
  qed
qed

theorem unsolicited_frames_discarded_witness:
  "fst (handleData ping_codec open_client [0, 0, 0, 4, 0x70, 0x69, 0x6E, 0x67, 0, 0])
     = open_client\<lparr>dataBuffer := [0, 0],
                     pendingResponse := (if [ping_text] = [] then pendingResponse open_client else None)\<rparr> \<and>
   parsed (snd (handleData ping_codec open_client [0, 0, 0, 4, 0x70, 0x69, 0x6E, 0x67, 0, 0]))
     = [ping_text] \<and>
   handleData ping_codec open_client [0, 0, 0, 4, 0x70, 0x69, 0x6E, 0x67, 0, 0]
     = (open_client\<lparr>dataBuffer := [0, 0]\<rparr>, map Parsed [ping_text])"
proof -
  have buf: "dataBuffer open_client @ [0, 0, 0, 4, 0x70, 0x69, 0x6E, 0x67, 0, 0]
               = concat (map frame [ping_text]) @ [0, 0]"
    by (simp add: open_client_def frame_def uint32be_def ping_text_def)
  have lens: "\<forall>b\<in>set [ping_text]. length b < 2 ^ 32"
    by (simp add: ping_text_def)
  have rest: "incomplete [0, 0]"
    by (simp add: incomplete_def)
  have none: "pendingResponse open_client = None"
    by (simp add: open_client_def)
  note t = unsolicited_frames_discarded [OF buf lens rest, of ping_codec]
  show ?thesis
    by (rule conjI [OF t [THEN conjunct1] conjI [OF t [THEN conjunct2, THEN conjunct1]
          t [THEN conjunct2, THEN conjunct2, THEN mp, OF none, THEN conjunct1]]])
qed

lemma attainable_socket:
  "attainable this \<Longrightarrow> connected this \<longrightarrow> socket this \<noteq> None"
  by (induction rule: attainable.induct)
     (auto simp: on_connect_def on_error_def on_close_def on_timeout_def disconnect_def
           split: option.splits)

lemma attainable_open_client: "attainable open_client"
proof -
  let ?s = "\<lparr>sock_id = 0, ended = False, destroyed = False\<rparr>"
  have "attainable (new_VsocketClient test_config)"
    by (rule attainable.constructed) (simp_all add: new_VsocketClient_def)
  then have "attainable ((new_VsocketClient test_config)\<lparr>socket := Some ?s\<rparr>)"
    by (rule attainable.socket_created)
  then have "attainable (on_connect ((new_VsocketClient test_config)\<lparr>socket := Some ?s\<rparr>))"
    by (rule attainable.connect_event) simp
  moreover have "on_connect ((new_VsocketClient test_config)\<lparr>socket := Some ?s\<rparr>) = open_client"
    by (simp add: on_connect_def new_VsocketClient_def open_client_def)
  ultimately show ?thesis by simp
qed

text \<open>
  Claim C8. \<^verbatim>\<open>disconnect\<close> has no statement that throws and always returns. In every
  state a client can be in, \<^verbatim>\<open>isConnected\<close> is false after \<^verbatim>\<open>disconnect\<close>, a second
  \<^verbatim>\<open>disconnect\<close> changes nothing, and on a client that holds no socket (one never
  connected) \<^verbatim>\<open>disconnect\<close> changes nothing at all. This holds for both clients, whose
  \<^verbatim>\<open>disconnect\<close> is the same.
\<close>

theorem disconnect_idempotent:
  assumes "attainable this"
  shows "\<not> isConnected (disconnect this) \<and>
         disconnect (disconnect this) = disconnect this \<and>
         attainable (disconnect this) \<and>
         (socket this = None \<longrightarrow> disconnect this = this)"
proof (intro conjI impI)
  show "\<not> isConnected (disconnect this)"
    using attainable_socket [OF assms]
    by (auto simp: isConnected_def disconnect_def split: option.splits)
  show "disconnect (disconnect this) = disconnect this"
    by (simp add: disconnect_def sock_end_def split: option.splits)
  show "attainable (disconnect this)"
    using assms by (rule attainable.disconnected)
  show "disconnect this = this" if "socket this = None"
    using that by (simp add: disconnect_def)
qed

theorem disconnect_idempotent_witness:
  "\<not> isConnected (disconnect open_client) \<and>
   disconnect (disconnect open_client) = disconnect open_client \<and>
   \<not> isConnected (disconnect (new_VsocketClient test_config)) \<and>
   disconnect (new_VsocketClient test_config) = new_VsocketClient test_config"
proof -
  have fresh: "attainable (new_VsocketClient test_config)"
    by (rule attainable.constructed) (simp_all add: new_VsocketClient_def)
  have none: "socket (new_VsocketClient test_config) = None"
    by (simp add: new_VsocketClient_def)
  note a = disconnect_idempotent [OF attainable_open_client]
  note b = disconnect_idempotent [OF fresh]
  show ?thesis
    by (rule conjI [OF a [THEN conjunct1] conjI [OF a [THEN conjunct2, THEN conjunct1]
          conjI [OF b [THEN conjunct1]
            b [THEN conjunct2, THEN conjunct2, THEN conjunct2, THEN mp, OF none]]]])
qed

end
